theory Spec2Isabelle
  imports Main "HOL-Library.AList" "HOL-Library.Sublist"
begin

section \<open>JavaScript values used by the routing code\<close>

text \<open>
  Strings are lists of code units below 256; the emoji of the operator notices are not
  part of any routing decision and the notices are kept as constructors with their
  parameters. Numbers that the code uses as identifiers (chat ids, message ids, topic ids)
  are integers; the loss of precision of a JavaScript number above \<open>2^53\<close> is not
  modelled.
\<close>

definition is_digit :: "char \<Rightarrow> bool" where
  "is_digit c = (c \<in> set ''0123456789'')"

text \<open>The characters matched by \<^verbatim>\<open>\s\<close> among the code units below 256.\<close>

definition is_space :: "char \<Rightarrow> bool" where
  "is_space c = (c \<in> set [CHR 0x09, CHR 0x0A, CHR 0x0B, CHR 0x0C, CHR 0x0D, CHR 0x20, CHR 0xA0])"

text \<open>The characters that \<^verbatim>\<open>.\<close> does not match.\<close>

definition is_line_terminator :: "char \<Rightarrow> bool" where
  "is_line_terminator c = (c \<in> set [CHR 0x0A, CHR 0x0D])"

definition digit_char :: "nat \<Rightarrow> char" where
  "digit_char n = ''0123456789'' ! n"

function digits_of :: "nat \<Rightarrow> string" where
  "digits_of n = (if n < 10 then [digit_char n] else digits_of (n div 10) @ [digit_char (n mod 10)])"
  by pat_completeness auto
termination
  by (relation "measure (\<lambda>n. n)") auto

declare digits_of.simps [simp del]

text \<open>\<^verbatim>\<open>Number.prototype.toString()\<close> on an integer.\<close>

definition toString :: "int \<Rightarrow> string" where
  "toString i = (if i < 0 then CHR ''-'' # digits_of (nat (- i)) else digits_of (nat i))"

definition digit_val :: "char \<Rightarrow> nat" where
  "digit_val c = of_char c - 48"

text \<open>\<^verbatim>\<open>parseInt\<close> on a string that the regular expression has matched against \<^verbatim>\<open>\d+\<close>.\<close>

definition parseInt :: "string \<Rightarrow> int" where
  "parseInt ds = int (foldl (\<lambda>acc c. 10 * acc + digit_val c) 0 ds)"

fun is_prefix :: "string \<Rightarrow> string \<Rightarrow> bool" where
  "is_prefix [] ys = True"
| "is_prefix (x # xs) [] = False"
| "is_prefix (x # xs) (y # ys) = (x = y \<and> is_prefix xs ys)"

text \<open>\<^verbatim>\<open>String.prototype.includes\<close>.\<close>

fun str_includes :: "string \<Rightarrow> string \<Rightarrow> bool" where
  "str_includes [] sub = (sub = [])"
| "str_includes (c # cs) sub = (is_prefix sub (c # cs) \<or> str_includes cs sub)"

text \<open>\<^verbatim>\<open>a || b\<close> on strings that may be undefined: the first that is defined and not empty.\<close>

definition truthy_str :: "string option \<Rightarrow> bool" where
  "truthy_str s = (case s of None \<Rightarrow> False | Some v \<Rightarrow> v \<noteq> [])"

definition or_str :: "string option \<Rightarrow> string option \<Rightarrow> string option" where
  "or_str a b = (if truthy_str a then a else b)"

definition truthy_num :: "int option \<Rightarrow> bool" where
  "truthy_num n = (case n of None \<Rightarrow> False | Some v \<Rightarrow> v \<noteq> 0)"

section \<open>Regular expressions of the management commands\<close>

text \<open>
  \<^verbatim>\<open>/^r(\d+)\s+(.+)$/\<close>: the digits are taken greedily, then the white space. When text
  remains it is the second group, and it must hold no line terminator. When nothing
  remains, the white space gives back its last character to the second group.
\<close>

definition match_legacy :: "string \<Rightarrow> (string \<times> string) option" where
  "match_legacy t =
     (case t of
        [] \<Rightarrow> None
      | c # rest \<Rightarrow>
          if c \<noteq> CHR ''r'' then None
          else
            let ds = takeWhile is_digit rest;
                r1 = dropWhile is_digit rest;
                ws = takeWhile is_space r1;
                r2 = dropWhile is_space r1
            in if ds = [] \<or> ws = [] then None
               else if r2 \<noteq> [] then
                 (if list_all (\<lambda>c. \<not> is_line_terminator c) r2 then Some (ds, r2) else None)
               else if 2 \<le> length ws \<and> \<not> is_line_terminator (last ws) then Some (ds, [last ws])
               else None)"

text \<open>\<^verbatim>\<open>/^\/info\s+(\d+)$/\<close>\<close>

definition match_info :: "string \<Rightarrow> string option" where
  "match_info t =
     (if \<not> is_prefix ''/info'' t then None
      else
        let r0 = drop 5 t;
            ws = takeWhile is_space r0;
            ds = dropWhile is_space r0
        in if ws \<noteq> [] \<and> ds \<noteq> [] \<and> list_all is_digit ds then Some ds else None)"

text \<open>\<^verbatim>\<open>/^\/link_topic\s+(\d+)\s+(\d+)$/\<close>\<close>

definition match_link :: "string \<Rightarrow> (string \<times> string) option" where
  "match_link t =
     (if \<not> is_prefix ''/link_topic'' t then None
      else
        let r0 = drop 11 t;
            ws1 = takeWhile is_space r0;
            r1 = dropWhile is_space r0;
            d1 = takeWhile is_digit r1;
            r2 = dropWhile is_digit r1;
            ws2 = takeWhile is_space r2;
            d2 = dropWhile is_space r2
        in if ws1 \<noteq> [] \<and> d1 \<noteq> [] \<and> ws2 \<noteq> [] \<and> d2 \<noteq> [] \<and> list_all is_digit d2
           then Some (d1, d2) else None)"

section \<open>Telegram: data\<close>

text \<open>
  An incoming Telegram message, with the fields the code reads. \<open>reply_to_message\<close> is
  the \<open>message_id\<close> of the message replied to, when the message is a reply.
\<close>

record tg_user =
  is_bot :: bool
  user_username :: "string option"
  first_name :: "string option"

record tg_msg =
  message_id :: int
  msg_from :: "tg_user option"
  chat_id :: int
  chat_type :: string
  msg_text :: "string option"
  message_thread_id :: "int option"
  reply_to_message :: "int option"

text \<open>The texts that the bot composes itself, by their parameters.\<close>

datatype notice =
    TestMessage
  | SetupMessage string bool
  | NewConversation string string
  | ManualTopicCreation string string
  | MessageSentTo string
  | ReplySentTo string
  | LegacyReplySentTo string string
  | FailedToSendMessage string
  | FailedToSendReply string
  | FailedToSend string
  | UserInfo string string string
  | NoPendingConversation string
  | ConnectionWorking
  | NoTopicsYet "(string \<times> string) list"
  | ActiveTopics "(string \<times> string \<times> int) list"
  | TopicLinked string int
  | ManagementHelp
  | UserWelcome
  | UserHelp

datatype payload = Text string | Notice notice

text \<open>
  What is handed to \<open>logMessage\<close>: the incoming message, or the message object that
  \<open>bot.sendMessage\<close> returned (its target, payload and \<open>message_id\<close>).
\<close>

datatype logged = Inbound tg_msg | Outbound "string option" payload int

text \<open>
  The calls that leave the process. \<open>SendMessage chat payload message_thread_id
  reply_to_message_id\<close> is \<open>bot.sendMessage\<close>; a chat of \<open>None\<close> is JavaScript's
  \<open>null\<close>. \<open>CreateForumTopic chat name\<close> is \<open>bot.createForumTopic\<close>, the name
  without its leading emoji. \<open>LogMessage\<close> is \<open>logMessage\<close> of the database
  module: it inserts the normalised message and throws on whatever error the insert
  gives, so it is a call that is accepted or rejected like the others.
\<close>

datatype call =
    SendMessage "string option" payload "int option" "int option"
  | CreateForumTopic "string option" string
  | LogMessage string logged

text \<open>
  The world outside: what the n-th call of the process returns. \<open>Inl e\<close> is a rejected
  promise whose error has the message \<open>e\<close>; \<open>Inr n\<close> is a result whose identifier
  (\<open>message_id\<close> or \<open>message_thread_id\<close>) is \<open>n\<close>.
\<close>

type_synonym platform = "nat \<Rightarrow> call \<Rightarrow> string + int"

record pending =
  username :: string
  originalMessage :: string
  forwardedMessageId :: int
  topicId :: "int option"

text \<open>
  The module's mutable maps, as association lists in insertion order (\<open>Map.set\<close> is
  \<open>AList.update\<close>, \<open>Map.delete\<close> is \<open>AList.delete\<close>, \<open>Map.get\<close> is \<open>map_of\<close>), the
  verification flag, and the calls made so far. \<open>conversationMap\<close> is never read or
  written by the code and is left out, as is the time stamp of a pending reply.
\<close>

record tg_state =
  pendingReplies :: "(string \<times> pending) list"
  forwardedMessageMap :: "(string \<times> string) list"
  userTopics :: "(string \<times> int) list"
  topicUsers :: "(int \<times> string) list"
  managementChatVerified :: bool
  trace :: "call list"

definition initial_state :: tg_state where
  "initial_state = \<lparr>pendingReplies = [], forwardedMessageMap = [], userTopics = [],
     topicUsers = [], managementChatVerified = False, trace = []\<rparr>"

record env =
  env_MANAGEMENT_CHAT_ID :: "string option"
  env_PERSONAL_TELEGRAM_ID :: "string option"
  env_USE_TOPICS :: "string option"

definition MANAGEMENT_CHAT_ID :: "env \<Rightarrow> string option" where
  "MANAGEMENT_CHAT_ID e =
     (let r = or_str (env_MANAGEMENT_CHAT_ID e) (env_PERSONAL_TELEGRAM_ID e)
      in if truthy_str r then r else None)"

definition USE_TOPICS :: "env \<Rightarrow> bool" where
  "USE_TOPICS e = (env_USE_TOPICS e = Some ''true'')"

text \<open>One call: the platform answers, the call is appended to the trace.\<close>

definition invoke :: "platform \<Rightarrow> tg_state \<Rightarrow> call \<Rightarrow> (string + int) \<times> tg_state" where
  "invoke pf st c = (pf (length (trace st)) c, st\<lparr>trace := trace st @ [c]\<rparr>)"

text \<open>\<^verbatim>\<open>msg.from?.is_bot\<close>, as a condition.\<close>

definition from_is_bot :: "tg_msg \<Rightarrow> bool" where
  "from_is_bot m = (case msg_from m of None \<Rightarrow> False | Some u \<Rightarrow> is_bot u)"

text \<open>\<^verbatim>\<open>msg.from?.username || msg.from?.first_name || 'Unknown'\<close>\<close>

definition display_name :: "tg_msg \<Rightarrow> string" where
  "display_name m =
     (case msg_from m of
        None \<Rightarrow> ''Unknown''
      | Some u \<Rightarrow>
          (case or_str (user_username u) (first_name u) of
             None \<Rightarrow> ''Unknown''
           | Some n \<Rightarrow> if n = [] then ''Unknown'' else n))"

text \<open>\<^verbatim>\<open>pendingReplies.get(id)?.username || 'user'\<close>\<close>

definition pending_name :: "tg_state \<Rightarrow> string \<Rightarrow> string" where
  "pending_name st k =
     (case map_of (pendingReplies st) k of
        None \<Rightarrow> ''user''
      | Some p \<Rightarrow> if username p = [] then ''user'' else username p)"

section \<open>Telegram: management chat and topics\<close>

definition testManagementChat :: "env \<Rightarrow> platform \<Rightarrow> tg_state \<Rightarrow> bool \<times> tg_state" where
  "testManagementChat e pf st =
     (if \<not> truthy_str (MANAGEMENT_CHAT_ID e) then (False, st)
      else
        (case invoke pf st (SendMessage (MANAGEMENT_CHAT_ID e) (Notice TestMessage) None None) of
           (Inr _, st1) \<Rightarrow> (True, st1\<lparr>managementChatVerified := True\<rparr>)
         | (Inl err, st1) \<Rightarrow> (False, st1\<lparr>managementChatVerified := False\<rparr>)))"

definition setupManagementChatId :: "platform \<Rightarrow> tg_state \<Rightarrow> tg_msg \<Rightarrow> tg_state" where
  "setupManagementChatId pf st msg =
     (if from_is_bot msg then st
      else
        let isGroup = (chat_type msg = ''group'' \<or> chat_type msg = ''supergroup'')
        in snd (invoke pf st
             (SendMessage (Some (toString (chat_id msg)))
                (Notice (SetupMessage (toString (chat_id msg)) isGroup)) None None)))"

definition topicName :: "string \<Rightarrow> int \<Rightarrow> string" where
  "topicName uname chatId = uname @ '' ('' @ toString chatId @ '')''"

text \<open>
  The \<open>catch\<close> block of \<open>getOrCreateUserTopic\<close>: for the three kinds of error message a
  notice goes to the main chat, its own failure ignored; the result is \<open>null\<close>.
\<close>

definition getOrCreateUserTopic_catch ::
  "env \<Rightarrow> platform \<Rightarrow> tg_state \<Rightarrow> int \<Rightarrow> string \<Rightarrow> string \<Rightarrow> int option \<times> tg_state" where
  "getOrCreateUserTopic_catch e pf st chatId uname err =
     (if str_includes err ''not enough rights'' \<or> str_includes err ''not found''
         \<or> str_includes err ''forum''
      then (None, snd (invoke pf st
              (SendMessage (MANAGEMENT_CHAT_ID e)
                 (Notice (ManualTopicCreation uname (toString chatId))) None None)))
      else (None, st))"

definition getOrCreateUserTopic ::
  "env \<Rightarrow> platform \<Rightarrow> tg_state \<Rightarrow> int \<Rightarrow> string \<Rightarrow> int option \<times> tg_state" where
  "getOrCreateUserTopic e pf st chatId uname =
     (if \<not> USE_TOPICS e then (None, st)
      else
        let userKey = toString chatId in
        (case map_of (userTopics st) userKey of
           Some t \<Rightarrow> (Some t, st)
         | None \<Rightarrow>
             (case invoke pf st (CreateForumTopic (MANAGEMENT_CHAT_ID e) (topicName uname chatId)) of
                (Inl err, st1) \<Rightarrow> getOrCreateUserTopic_catch e pf st1 chatId uname err
              | (Inr tid, st1) \<Rightarrow>
                  let st2 = st1\<lparr>userTopics := AList.update userKey tid (userTopics st1),
                                topicUsers := AList.update tid userKey (topicUsers st1)\<rparr>
                  in (case invoke pf st2
                            (SendMessage (MANAGEMENT_CHAT_ID e)
                               (Notice (NewConversation uname (toString chatId))) (Some tid) None) of
                        (Inl err, st3) \<Rightarrow> getOrCreateUserTopic_catch e pf st3 chatId uname err
                      | (Inr _, st3) \<Rightarrow> (Some tid, st3)))))"

section \<open>Telegram: forwarding a user's message\<close>

text \<open>
  The \<open>try\<close> block of \<open>forwardToManagement\<close> with its \<open>catch\<close>, in two parts. The
  second part, given the topic that was found, composes the text, sends it and stores the
  pending reply and the entry of the forwarded-message map.
\<close>

definition messageText_of :: "tg_msg \<Rightarrow> string" where
  "messageText_of originalMsg =
     (if truthy_str (msg_text originalMsg) then the (msg_text originalMsg)
      else ''No text content'')"

definition contextMessage_of :: "env \<Rightarrow> tg_msg \<Rightarrow> int option \<Rightarrow> string" where
  "contextMessage_of e originalMsg tid =
     (if USE_TOPICS e \<and> truthy_num tid then messageText_of originalMsg
      else ''*'' @ display_name originalMsg @ ''*: '' @ messageText_of originalMsg)"

definition forward_call :: "env \<Rightarrow> tg_msg \<Rightarrow> int option \<Rightarrow> call" where
  "forward_call e originalMsg tid =
     SendMessage (MANAGEMENT_CHAT_ID e) (Text (contextMessage_of e originalMsg tid))
       (if truthy_num tid then tid else None) None"

definition send_and_store :: "env \<Rightarrow> platform \<Rightarrow> tg_state \<Rightarrow> tg_msg \<Rightarrow> int option \<Rightarrow> tg_state" where
  "send_and_store e pf st originalMsg tid =
     (case invoke pf st (forward_call e originalMsg tid) of
        (Inr mid, st2) \<Rightarrow>
          st2\<lparr>pendingReplies :=
                 AList.update (toString (chat_id originalMsg))
                   \<lparr>username = display_name originalMsg,
                    originalMessage = messageText_of originalMsg,
                    forwardedMessageId = mid, topicId = tid\<rparr>
                   (pendingReplies st2),
               forwardedMessageMap :=
                 AList.update (toString mid) (toString (chat_id originalMsg))
                   (forwardedMessageMap st2)\<rparr>
      | (Inl err, st2) \<Rightarrow>
          if str_includes err ''chat not found'' then st2\<lparr>managementChatVerified := False\<rparr>
          else st2)"

definition forwardToManagement_try :: "env \<Rightarrow> platform \<Rightarrow> tg_state \<Rightarrow> tg_msg \<Rightarrow> tg_state" where
  "forwardToManagement_try e pf st originalMsg =
     (case (if USE_TOPICS e
            then getOrCreateUserTopic e pf st (chat_id originalMsg) (display_name originalMsg)
            else (None, st)) of
        (tid, st1) \<Rightarrow> send_and_store e pf st1 originalMsg tid)"

definition forwardToManagement :: "env \<Rightarrow> platform \<Rightarrow> tg_state \<Rightarrow> tg_msg \<Rightarrow> tg_state" where
  "forwardToManagement e pf st originalMsg =
     (if \<not> truthy_str (MANAGEMENT_CHAT_ID e) then st
      else if \<not> managementChatVerified st then
        (case testManagementChat e pf st of
           (False, st1) \<Rightarrow> st1
         | (True, st1) \<Rightarrow> forwardToManagement_try e pf st1 originalMsg)
      else forwardToManagement_try e pf st originalMsg)"

section \<open>Telegram: the operator's messages\<close>

text \<open>
  How a block of a handler ends: it returns a value, it throws, or control goes on to the
  statement after it.
\<close>

datatype 'a flow = Return 'a | Throw string | Next

text \<open>\<^verbatim>\<open>msg.text || ''\<close>\<close>

definition text_of :: "tg_msg \<Rightarrow> string" where
  "text_of msg = (case msg_text msg of None \<Rightarrow> [] | Some t \<Rightarrow> t)"

text \<open>
  The statements every reply path starts its \<open>try\<close> block with: the text is sent to the
  user, the message returned is logged, and the confirmation is sent. The first failure
  is the error that reaches the \<open>catch\<close>.
\<close>

definition deliver ::
  "platform \<Rightarrow> tg_state \<Rightarrow> string \<Rightarrow> string \<Rightarrow> call \<Rightarrow> (string + unit) \<times> tg_state" where
  "deliver pf st target body confirm =
     (case invoke pf st (SendMessage (Some target) (Text body) None None) of
        (Inl err, st1) \<Rightarrow> (Inl err, st1)
      | (Inr mid, st1) \<Rightarrow>
          (case invoke pf st1 (LogMessage ''telegram'' (Outbound (Some target) (Text body) mid)) of
             (Inl err, st2) \<Rightarrow> (Inl err, st2)
           | (Inr _, st2) \<Rightarrow>
               (case invoke pf st2 confirm of
                  (Inl err, st3) \<Rightarrow> (Inl err, st3)
                | (Inr _, st3) \<Rightarrow> (Inr (), st3))))"

text \<open>A notice sent from a \<open>catch\<close> block or a command: its own failure is thrown on.\<close>

definition notify :: "platform \<Rightarrow> tg_state \<Rightarrow> call \<Rightarrow> bool flow \<times> tg_state" where
  "notify pf st c =
     (case invoke pf st c of
        (Inl err, st1) \<Rightarrow> (Throw err, st1)
      | (Inr _, st1) \<Rightarrow> (Return True, st1))"

text \<open>First block: a message typed in a topic thread that is not a reply.\<close>

definition topic_thread_message ::
  "env \<Rightarrow> platform \<Rightarrow> tg_state \<Rightarrow> tg_msg \<Rightarrow> bool flow \<times> tg_state" where
  "topic_thread_message e pf st msg =
     (if USE_TOPICS e \<and> truthy_num (message_thread_id msg) \<and> reply_to_message msg = None then
        (case map_of (topicUsers st) (the (message_thread_id msg)) of
           None \<Rightarrow> (Next, st)
         | Some targetChatId \<Rightarrow>
             if targetChatId = [] then (Next, st)
             else
               (case deliver pf st targetChatId (text_of msg)
                       (SendMessage (MANAGEMENT_CHAT_ID e)
                          (Notice (MessageSentTo (pending_name st targetChatId)))
                          (message_thread_id msg) (Some (message_id msg))) of
                  (Inr _, st1) \<Rightarrow> (Return True, st1)
                | (Inl err, st1) \<Rightarrow>
                    notify pf st1
                      (SendMessage (MANAGEMENT_CHAT_ID e) (Notice (FailedToSendMessage err))
                         (message_thread_id msg) (Some (message_id msg)))))
      else (Next, st))"

text \<open>
  The \<open>else\<close> branch of the second block: no entry of the forwarded-message map, but the
  reply was typed in a topic thread.
\<close>

definition reply_in_topic_fallback ::
  "env \<Rightarrow> platform \<Rightarrow> tg_state \<Rightarrow> tg_msg \<Rightarrow> bool flow \<times> tg_state" where
  "reply_in_topic_fallback e pf st msg =
     (if USE_TOPICS e \<and> truthy_num (message_thread_id msg) then
        (case map_of (topicUsers st) (the (message_thread_id msg)) of
           None \<Rightarrow> (Next, st)
         | Some targetChatId \<Rightarrow>
             if targetChatId = [] then (Next, st)
             else
               (case deliver pf st targetChatId (text_of msg)
                       (SendMessage (MANAGEMENT_CHAT_ID e)
                          (Notice (ReplySentTo (pending_name st targetChatId)))
                          (message_thread_id msg) (Some (message_id msg))) of
                  (Inr _, st1) \<Rightarrow> (Return True, st1)
                | (Inl err, st1) \<Rightarrow>
                    (case invoke pf st1
                            (SendMessage (MANAGEMENT_CHAT_ID e) (Notice (FailedToSend err))
                               (message_thread_id msg) (Some (message_id msg))) of
                       (Inl err2, st2) \<Rightarrow> (Throw err2, st2)
                     | (Inr _, st2) \<Rightarrow> (Next, st2))))
      else (Next, st))"

text \<open>
  Second block: a reply to a message. With an entry of the forwarded-message map the
  reply goes to the chat of the entry; without one, in a topic thread with a user, it goes
  to that user, and a failure there goes on to the third block.
\<close>

definition reply_to_forwarded ::
  "env \<Rightarrow> platform \<Rightarrow> tg_state \<Rightarrow> tg_msg \<Rightarrow> bool flow \<times> tg_state" where
  "reply_to_forwarded e pf st msg =
     (if truthy_num (reply_to_message msg) then
        (case map_of (forwardedMessageMap st) (toString (the (reply_to_message msg))) of
           Some originalChatId \<Rightarrow>
             if originalChatId = [] then reply_in_topic_fallback e pf st msg
             else
               let userInfo = map_of (pendingReplies st) originalChatId;
                   thread = (case userInfo of
                               None \<Rightarrow> None
                             | Some p \<Rightarrow> if truthy_num (topicId p) \<and> USE_TOPICS e
                                         then topicId p else None)
               in (case deliver pf st originalChatId (text_of msg)
                         (SendMessage (MANAGEMENT_CHAT_ID e)
                            (Notice (ReplySentTo (pending_name st originalChatId)))
                            thread (Some (message_id msg))) of
                     (Inr _, st1) \<Rightarrow> (Return True, st1)
                   | (Inl err, st1) \<Rightarrow>
                       notify pf st1
                         (SendMessage (MANAGEMENT_CHAT_ID e) (Notice (FailedToSendReply err))
                            None (Some (message_id msg))))
         | None \<Rightarrow> reply_in_topic_fallback e pf st msg)
      else (Next, st))"

text \<open>
  Third block: the legacy command \<^verbatim>\<open>r<digits> <text>\<close>. The pending reply of the target is
  deleted at the end of the \<open>try\<close> block, after the confirmation.
\<close>

definition legacy_reply_command ::
  "env \<Rightarrow> platform \<Rightarrow> tg_state \<Rightarrow> tg_msg \<Rightarrow> bool flow \<times> tg_state" where
  "legacy_reply_command e pf st msg =
     (case match_legacy (text_of msg) of
        None \<Rightarrow> (Return False, st)
      | Some (targetChatId, replyText) \<Rightarrow>
          (case deliver pf st targetChatId replyText
                  (SendMessage (MANAGEMENT_CHAT_ID e)
                     (Notice (LegacyReplySentTo (pending_name st targetChatId) replyText))
                     None None) of
             (Inr _, st1) \<Rightarrow>
               (Return True,
                st1\<lparr>pendingReplies := AList.delete targetChatId (pendingReplies st1)\<rparr>)
           | (Inl err, st1) \<Rightarrow>
               notify pf st1
                 (SendMessage (MANAGEMENT_CHAT_ID e) (Notice (FailedToSendReply err)) None None)))"

definition handleManagementReply ::
  "env \<Rightarrow> platform \<Rightarrow> tg_state \<Rightarrow> tg_msg \<Rightarrow> bool flow \<times> tg_state" where
  "handleManagementReply e pf st msg =
     (case topic_thread_message e pf st msg of
        (Next, st1) \<Rightarrow>
          (case reply_to_forwarded e pf st1 msg of
             (Next, st2) \<Rightarrow> legacy_reply_command e pf st2 msg
           | r \<Rightarrow> r)
      | r \<Rightarrow> r)"

definition handleInfoCommand ::
  "env \<Rightarrow> platform \<Rightarrow> tg_state \<Rightarrow> tg_msg \<Rightarrow> bool flow \<times> tg_state" where
  "handleInfoCommand e pf st msg =
     (case match_info (text_of msg) of
        None \<Rightarrow> (Return False, st)
      | Some chatId \<Rightarrow>
          (case map_of (pendingReplies st) chatId of
             Some pendingInfo \<Rightarrow>
               notify pf st
                 (SendMessage (MANAGEMENT_CHAT_ID e)
                    (Notice (UserInfo chatId (username pendingInfo) (originalMessage pendingInfo)))
                    None None)
           | None \<Rightarrow>
               notify pf st
                 (SendMessage (MANAGEMENT_CHAT_ID e) (Notice (NoPendingConversation chatId))
                    None None)))"

section \<open>Telegram: the message handler\<close>

text \<open>\<^verbatim>\<open>pendingReplies.get(chatId)?.username || 'Unknown'\<close>, of the topics list.\<close>

definition topic_entry :: "tg_state \<Rightarrow> string \<times> int \<Rightarrow> string \<times> string \<times> int" where
  "topic_entry st ct =
     (case map_of (pendingReplies st) (fst ct) of
        None \<Rightarrow> (''Unknown'', fst ct, snd ct)
      | Some p \<Rightarrow> (if username p = [] then ''Unknown'' else username p, fst ct, snd ct))"

text \<open>
  The commands of the management chat that follow the reply and info handlers:
  \<^verbatim>\<open>/test\<close>, \<^verbatim>\<open>/topics\<close>, \<^verbatim>\<open>/link_topic\<close> and the help text. An error of a send is
  caught by the handler's \<open>catch\<close>, which only prints it.
\<close>

definition management_commands :: "env \<Rightarrow> platform \<Rightarrow> tg_state \<Rightarrow> tg_msg \<Rightarrow> tg_state" where
  "management_commands e pf st msg =
     (if msg_text msg = Some ''/test'' then
        snd (invoke pf st (SendMessage (MANAGEMENT_CHAT_ID e) (Notice ConnectionWorking) None None))
      else if msg_text msg = Some ''/topics'' \<and> USE_TOPICS e then
        (if length (userTopics st) = 0 then
           snd (invoke pf st
             (SendMessage (MANAGEMENT_CHAT_ID e)
                (Notice (NoTopicsYet (map (\<lambda>kp. (username (snd kp), fst kp)) (pendingReplies st))))
                None None))
         else
           snd (invoke pf st
             (SendMessage (MANAGEMENT_CHAT_ID e)
                (Notice (ActiveTopics (map (topic_entry st) (userTopics st)))) None None)))
      else
        let linkMatch = (case msg_text msg of None \<Rightarrow> None | Some t \<Rightarrow> match_link t)
        in if linkMatch \<noteq> None \<and> USE_TOPICS e then
             let chatId = fst (the linkMatch);
                 tid = parseInt (snd (the linkMatch));
                 st1 = st\<lparr>userTopics := AList.update chatId tid (userTopics st),
                          topicUsers := AList.update tid chatId (topicUsers st)\<rparr>
             in snd (invoke pf st1
                  (SendMessage (MANAGEMENT_CHAT_ID e) (Notice (TopicLinked chatId tid)) None None))
           else if msg_text msg = Some ''/help'' \<or> msg_text msg = Some ''help'' then
             snd (invoke pf st (SendMessage (MANAGEMENT_CHAT_ID e) (Notice ManagementHelp) None None))
           else st)"

text \<open>The branch of the handler for a message of the management chat.\<close>

definition management_message :: "env \<Rightarrow> platform \<Rightarrow> tg_state \<Rightarrow> tg_msg \<Rightarrow> tg_state" where
  "management_message e pf st msg =
     (case handleManagementReply e pf st msg of
        (Return False, st1) \<Rightarrow>
          (case handleInfoCommand e pf st1 msg of
             (Return False, st2) \<Rightarrow> management_commands e pf st2 msg
           | (_, st2) \<Rightarrow> st2)
      | (_, st1) \<Rightarrow> st1)"

text \<open>
  \<^verbatim>\<open>bot.on('message', ...)\<close>. Every error is caught by the handler's own \<open>catch\<close>, so
  the handler always ends, with a state.
\<close>

definition on_message :: "env \<Rightarrow> platform \<Rightarrow> tg_state \<Rightarrow> tg_msg \<Rightarrow> tg_state" where
  "on_message e pf st msg =
     (if \<not> truthy_str (MANAGEMENT_CHAT_ID e) \<and> \<not> from_is_bot msg then
        setupManagementChatId pf st msg
      else if truthy_str (MANAGEMENT_CHAT_ID e)
              \<and> Some (toString (chat_id msg)) = MANAGEMENT_CHAT_ID e \<and> \<not> from_is_bot msg then
        management_message e pf st msg
      else if \<not> from_is_bot msg
              \<and> (\<not> truthy_str (MANAGEMENT_CHAT_ID e)
                  \<or> Some (toString (chat_id msg)) \<noteq> MANAGEMENT_CHAT_ID e) then
        (case invoke pf st (LogMessage ''telegram'' (Inbound msg)) of
           (Inl err, st1) \<Rightarrow> st1
         | (Inr _, st1) \<Rightarrow> forwardToManagement e pf st1 msg)
      else st)"

text \<open>
  The body shared by the two \<^verbatim>\<open>bot.onText\<close> handlers once their guards have passed: the
  command is logged, the answer is sent to the user and logged.
\<close>

definition answer_command :: "platform \<Rightarrow> tg_state \<Rightarrow> tg_msg \<Rightarrow> notice \<Rightarrow> tg_state" where
  "answer_command pf st msg n =
     (case invoke pf st (LogMessage ''telegram'' (Inbound msg)) of
        (Inl err, st1) \<Rightarrow> st1
      | (Inr _, st1) \<Rightarrow>
          (case invoke pf st1 (SendMessage (Some (toString (chat_id msg))) (Notice n) None None) of
             (Inl err, st2) \<Rightarrow> st2
           | (Inr mid, st2) \<Rightarrow>
               snd (invoke pf st2
                 (LogMessage ''telegram''
                    (Outbound (Some (toString (chat_id msg))) (Notice n) mid)))))"

text \<open>\<^verbatim>\<open>bot.onText(/\/start/, ...)\<close>: runs for a message whose text contains \<^verbatim>\<open>/start\<close>.\<close>

definition on_start :: "env \<Rightarrow> platform \<Rightarrow> tg_state \<Rightarrow> tg_msg \<Rightarrow> tg_state" where
  "on_start e pf st msg =
     (if \<not> str_includes (text_of msg) ''/start'' then st
      else if \<not> truthy_str (MANAGEMENT_CHAT_ID e) \<and> \<not> from_is_bot msg then
        setupManagementChatId pf st msg
      else if truthy_str (MANAGEMENT_CHAT_ID e)
              \<and> Some (toString (chat_id msg)) = MANAGEMENT_CHAT_ID e then st
      else answer_command pf st msg UserWelcome)"

text \<open>\<^verbatim>\<open>bot.onText(/\/help/, ...)\<close>: runs for a message whose text contains \<^verbatim>\<open>/help\<close>.\<close>

definition on_help :: "env \<Rightarrow> platform \<Rightarrow> tg_state \<Rightarrow> tg_msg \<Rightarrow> tg_state" where
  "on_help e pf st msg =
     (if \<not> str_includes (text_of msg) ''/help'' then st
      else if truthy_str (MANAGEMENT_CHAT_ID e)
              \<and> Some (toString (chat_id msg)) = MANAGEMENT_CHAT_ID e then st
      else answer_command pf st msg UserHelp)"

text \<open>
  The operations of the Telegram engine: the three handlers of an update and the
  connection test of the start-up timer. A run is a sequence of them, each complete
  before the next.
\<close>

datatype tg_event = OnMessage tg_msg | OnStart tg_msg | OnHelp tg_msg | StartupTest

fun tg_step :: "env \<Rightarrow> platform \<Rightarrow> tg_state \<Rightarrow> tg_event \<Rightarrow> tg_state" where
  "tg_step e pf st (OnMessage msg) = on_message e pf st msg"
| "tg_step e pf st (OnStart msg) = on_start e pf st msg"
| "tg_step e pf st (OnHelp msg) = on_help e pf st msg"
| "tg_step e pf st StartupTest = snd (testManagementChat e pf st)"

definition tg_run :: "env \<Rightarrow> platform \<Rightarrow> tg_state \<Rightarrow> tg_event list \<Rightarrow> tg_state" where
  "tg_run e pf st evs = foldl (tg_step e pf) st evs"

section \<open>Discord: the thread of a user\<close>

text \<open>
  The Discord module keeps its own pair of maps. Its calls are the fetches of the guild
  and of a channel, the creation of a thread and a send into a thread; a call is
  rejected with an error message, or resolves to \<open>null\<close>, or to an object with an id.
\<close>

datatype dc_call =
    GuildsFetch "string option"
  | ChannelsFetch string "string option"
  | ThreadsCreate string string
  | ThreadSend string notice

datatype dc_result = Rejected string | Null | Object string

type_synonym dc_platform = "nat \<Rightarrow> dc_call \<Rightarrow> dc_result"

record dc_state =
  userThreads :: "(string \<times> string) list"
  threadUsers :: "(string \<times> string) list"
  dc_trace :: "dc_call list"

record dc_env =
  MANAGEMENT_GUILD_ID :: "string option"
  MANAGEMENT_CHANNEL_ID :: "string option"
  USE_THREADS :: bool

definition dc_invoke :: "dc_platform \<Rightarrow> dc_state \<Rightarrow> dc_call \<Rightarrow> dc_result \<times> dc_state" where
  "dc_invoke pf st c = (pf (length (dc_trace st)) c, st\<lparr>dc_trace := dc_trace st @ [c]\<rparr>)"

text \<open>The two deletions of the \<open>catch\<close> block of the existence check.\<close>

definition evict :: "dc_state \<Rightarrow> string \<Rightarrow> string \<Rightarrow> dc_state" where
  "evict st userKey threadId =
     st\<lparr>userThreads := AList.delete userKey (userThreads st),
        threadUsers := AList.delete threadId (threadUsers st)\<rparr>"

text \<open>
  The first block of \<open>getOrCreateUserThread\<close>: a cached thread is fetched again. A
  result is the thread to return; without one the function goes on to create a thread.
  A guild that resolves to \<open>null\<close> makes the next member access throw, inside the
  \<open>try\<close>.
\<close>

definition verify_cached_thread ::
  "dc_env \<Rightarrow> dc_platform \<Rightarrow> dc_state \<Rightarrow> string \<Rightarrow> string option \<times> dc_state" where
  "verify_cached_thread e pf st userKey =
     (case map_of (userThreads st) userKey of
        None \<Rightarrow> (None, st)
      | Some threadId \<Rightarrow>
          (case dc_invoke pf st (GuildsFetch (MANAGEMENT_GUILD_ID e)) of
             (Object g, st1) \<Rightarrow>
               (case dc_invoke pf st1 (ChannelsFetch g (Some threadId)) of
                  (Object t, st2) \<Rightarrow> (Some t, st2)
                | (Null, st2) \<Rightarrow> (None, st2)
                | (Rejected err, st2) \<Rightarrow> (None, evict st2 userKey threadId))
           | (_, st1) \<Rightarrow> (None, evict st1 userKey threadId)))"

text \<open>The second block: the thread is created, recorded in both maps and greeted.\<close>

definition create_user_thread ::
  "dc_env \<Rightarrow> dc_platform \<Rightarrow> dc_state \<Rightarrow> string \<Rightarrow> string \<Rightarrow> string option \<times> dc_state" where
  "create_user_thread e pf st userId uname =
     (case dc_invoke pf st (GuildsFetch (MANAGEMENT_GUILD_ID e)) of
        (Object g, st1) \<Rightarrow>
          (case dc_invoke pf st1 (ChannelsFetch g (MANAGEMENT_CHANNEL_ID e)) of
             (Object c, st2) \<Rightarrow>
               (case dc_invoke pf st2 (ThreadsCreate c (uname @ '' ('' @ userId @ '')'')) of
                  (Object tid, st3) \<Rightarrow>
                    let st4 = st3\<lparr>userThreads := AList.update userId tid (userThreads st3),
                                  threadUsers := AList.update tid userId (threadUsers st3)\<rparr>
                    in (case dc_invoke pf st4 (ThreadSend tid (NewConversation uname userId)) of
                          (Rejected err, st5) \<Rightarrow> (None, st5)
                        | (_, st5) \<Rightarrow> (Some tid, st5))
                | (_, st3) \<Rightarrow> (None, st3))
           | (_, st2) \<Rightarrow> (None, st2))
      | (_, st1) \<Rightarrow> (None, st1))"

definition getOrCreateUserThread ::
  "dc_env \<Rightarrow> dc_platform \<Rightarrow> dc_state \<Rightarrow> string \<Rightarrow> string \<Rightarrow> string option \<times> dc_state" where
  "getOrCreateUserThread e pf st userId uname =
     (if \<not> USE_THREADS e then (None, st)
      else
        (case verify_cached_thread e pf st userId of
           (Some t, st1) \<Rightarrow> (Some t, st1)
         | (None, st1) \<Rightarrow> create_user_thread e pf st1 userId uname))"

section \<open>Predicates of the properties\<close>

text \<open>Between two states only calls were made: the maps and the flag are as before.\<close>

definition calls_only :: "tg_state \<Rightarrow> tg_state \<Rightarrow> bool" where
  "calls_only st st' = (prefix (trace st) (trace st') \<and> st' = st\<lparr>trace := trace st'\<rparr>)"

text \<open>The message was typed in a topic thread that the reverse map gives a user for.\<close>

definition in_mapped_topic :: "env \<Rightarrow> tg_state \<Rightarrow> tg_msg \<Rightarrow> bool" where
  "in_mapped_topic e st msg =
     (USE_TOPICS e \<and> truthy_num (message_thread_id msg)
      \<and> truthy_str (map_of (topicUsers st) (the (message_thread_id msg))))"

text \<open>
  The two tables of a module agree when every entry of the forward table has its mirror
  image in the reverse table.
\<close>

definition agree :: "('a \<times> 'b) list \<Rightarrow> ('b \<times> 'a) list \<Rightarrow> bool" where
  "agree fwd bwd = list_all (\<lambda>iu. map_of fwd (fst iu) = Some (snd iu) \<longrightarrow>
                                  map_of bwd (snd iu) = Some (fst iu)) fwd"

definition tables_agree :: "tg_state \<Rightarrow> bool" where
  "tables_agree st = agree (userTopics st) (topicUsers st)"

definition threads_agree :: "dc_state \<Rightarrow> bool" where
  "threads_agree st = agree (userThreads st) (threadUsers st)"

text \<open>
  Between two states the two tables were left alone, or one pair was written to both: the
  forward table got \<open>i \<mapsto> u\<close> and the reverse table \<open>u \<mapsto> i\<close>.
\<close>

definition tables_written :: "tg_state \<Rightarrow> tg_state \<Rightarrow> bool" where
  "tables_written st st' =
     ((userTopics st' = userTopics st \<and> topicUsers st' = topicUsers st)
      \<or> list_ex (\<lambda>iu. userTopics st' = AList.update (fst iu) (snd iu) (userTopics st)
                       \<and> topicUsers st' = AList.update (snd iu) (fst iu) (topicUsers st))
           (userTopics st'))"



section \<open>Example inputs\<close>

text \<open>
  A deployment with a management group and topics, an operator, a user, and a platform
  that accepts every call and numbers its results from 100.
\<close>

definition example_env :: env where
  "example_env = \<lparr>env_MANAGEMENT_CHAT_ID = Some ''-1001'', env_PERSONAL_TELEGRAM_ID = None,
     env_USE_TOPICS = Some ''true''\<rparr>"

definition operator :: tg_user where
  "operator = \<lparr>is_bot = False, user_username = Some ''op'', first_name = None\<rparr>"

definition accepting :: platform where
  "accepting n c = Inr (int n + 100)"

definition legacy_msg :: tg_msg where
  "legacy_msg = \<lparr>message_id = 9, msg_from = Some operator, chat_id = - 1001,
     chat_type = ''supergroup'', msg_text = Some ''r123 hello there'',
     message_thread_id = None, reply_to_message = None\<rparr>"

definition unconfigured_env :: env where
  "unconfigured_env = \<lparr>env_MANAGEMENT_CHAT_ID = None, env_PERSONAL_TELEGRAM_ID = None,
     env_USE_TOPICS = None\<rparr>"

definition alice :: tg_user where
  "alice = \<lparr>is_bot = False, user_username = Some ''alice'', first_name = None\<rparr>"

definition hello_msg :: tg_msg where
  "hello_msg = \<lparr>message_id = 7, msg_from = Some alice, chat_id = 123, chat_type = ''private'',
     msg_text = Some ''hello'', message_thread_id = None, reply_to_message = None\<rparr>"

text \<open>A platform that takes the records of the persistence collaborator and rejects the rest.\<close>

definition rejecting :: platform where
  "rejecting n c = (case c of LogMessage p l \<Rightarrow> Inr 0 | _ \<Rightarrow> Inl ''network error'')"

definition verified_state :: tg_state where
  "verified_state = initial_state\<lparr>managementChatVerified := True\<rparr>"

text \<open>The user 456 has the topic 5; the operator types in that topic.\<close>

definition mapped_state :: tg_state where
  "mapped_state = verified_state\<lparr>userTopics := [(''456'', 5)], topicUsers := [(5, ''456'')]\<rparr>"

definition topic_msg :: tg_msg where
  "topic_msg = \<lparr>message_id = 11, msg_from = Some operator, chat_id = - 1001,
     chat_type = ''supergroup'', msg_text = Some ''hi'', message_thread_id = Some 5,
     reply_to_message = None\<rparr>"

text \<open>
  A deployment without topics, the state after the first message of the user 123 there,
  and the operator's reply to the forwarded message.
\<close>

definition plain_env :: env where
  "plain_env = \<lparr>env_MANAGEMENT_CHAT_ID = Some ''-1001'', env_PERSONAL_TELEGRAM_ID = None,
     env_USE_TOPICS = None\<rparr>"

definition after_hello :: tg_state where
  "after_hello = on_message plain_env accepting initial_state hello_msg"

definition reply_msg :: tg_msg where
  "reply_msg = \<lparr>message_id = 12, msg_from = Some operator, chat_id = - 1001,
     chat_type = ''supergroup'', msg_text = Some ''hi alice'', message_thread_id = None,
     reply_to_message = Some 102\<rparr>"

definition logged_state :: tg_state where
  "logged_state = initial_state\<lparr>trace := [LogMessage ''telegram'' (Inbound hello_msg)]\<rparr>"



text \<open>The operator links the topic 5 to the user 1, then to the user 2.\<close>

definition link_msg_1 :: tg_msg where
  "link_msg_1 = \<lparr>message_id = 21, msg_from = Some operator, chat_id = - 1001,
     chat_type = ''supergroup'', msg_text = Some ''/link_topic 1 5'', message_thread_id = None,
     reply_to_message = None\<rparr>"

definition link_msg_2 :: tg_msg where
  "link_msg_2 = \<lparr>message_id = 22, msg_from = Some operator, chat_id = - 1001,
     chat_type = ''supergroup'', msg_text = Some ''/link_topic 2 5'', message_thread_id = None,
     reply_to_message = None\<rparr>"

text \<open>
  Discord: a deployment with threads, a state in which the user 77 has the thread 900,
  a platform on which every fetch finds its object, and one on which the thread is gone.
\<close>

definition dc_example_env :: dc_env where
  "dc_example_env = \<lparr>MANAGEMENT_GUILD_ID = Some ''G'', MANAGEMENT_CHANNEL_ID = Some ''C'',
     USE_THREADS = True\<rparr>"

definition dc_mapped_state :: dc_state where
  "dc_mapped_state = \<lparr>userThreads = [(''77'', ''900'')], threadUsers = [(''900'', ''77'')],
     dc_trace = []\<rparr>"

definition dc_finding :: dc_platform where
  "dc_finding n c =
     (case c of
        GuildsFetch g \<Rightarrow> Object ''G''
      | ChannelsFetch g ch \<Rightarrow> (case ch of None \<Rightarrow> Null | Some i \<Rightarrow> Object i)
      | ThreadsCreate ch nm \<Rightarrow> Object ''901''
      | ThreadSend t n \<Rightarrow> Object ''1'')"

definition dc_thread_gone :: dc_platform where
  "dc_thread_gone n c =
     (case c of
        GuildsFetch g \<Rightarrow> Object ''G''
      | ChannelsFetch g ch \<Rightarrow> (if ch = Some ''900'' then Rejected ''Unknown Channel''
                                else Object ''C'')
      | ThreadsCreate ch nm \<Rightarrow> Object ''901''
      | ThreadSend t n \<Rightarrow> Object ''1'')"



section \<open>Calls and frames\<close>

lemma invoke_fst [simp]: "fst (invoke pf st c) = pf (length (trace st)) c"
  by (simp add: invoke_def)

lemma invoke_snd [simp]: "snd (invoke pf st c) = st\<lparr>trace := trace st @ [c]\<rparr>"
  by (simp add: invoke_def)

lemma calls_only_refl [simp]: "calls_only st st"
  by (simp add: calls_only_def)

lemma calls_only_trans: "calls_only a b \<Longrightarrow> calls_only b c \<Longrightarrow> calls_only a c"
  by (cases a, cases b, cases c) (auto simp: calls_only_def)

lemma calls_only_append [simp]: "calls_only st (st\<lparr>trace := trace st @ cs\<rparr>)"
  by (simp add: calls_only_def)

lemma calls_only_step: "calls_only st st1 \<Longrightarrow> calls_only st (st1\<lparr>trace := trace st1 @ cs\<rparr>)"
  by (rule calls_only_trans [OF _ calls_only_append])


lemma calls_only_fields:
  assumes "calls_only st st'"
  shows "pendingReplies st' = pendingReplies st"
    and "forwardedMessageMap st' = forwardedMessageMap st"
    and "userTopics st' = userTopics st"
    and "topicUsers st' = topicUsers st"
    and "managementChatVerified st' = managementChatVerified st"
proof -
  from assms have "st' = st\<lparr>trace := trace st'\<rparr>"
    by (simp add: calls_only_def)
  then have same: "\<And>f. f st' = f (st\<lparr>trace := trace st'\<rparr>)"
    by simp
  show "pendingReplies st' = pendingReplies st"
    using same [of pendingReplies] by simp
  show "forwardedMessageMap st' = forwardedMessageMap st"
    using same [of forwardedMessageMap] by simp
  show "userTopics st' = userTopics st"
    using same [of userTopics] by simp
  show "topicUsers st' = topicUsers st"
    using same [of topicUsers] by simp
  show "managementChatVerified st' = managementChatVerified st"
    using same [of managementChatVerified] by simp
qed

lemma prefix_step: "prefix xs (trace st1) \<Longrightarrow> prefix xs (trace st1 @ cs)"
  by (auto simp: prefix_def)

lemma deliver_shape:
  "\<exists>cs. snd (deliver pf st target body confirm) =
     st\<lparr>trace := trace st @ SendMessage (Some target) (Text body) None None # cs\<rparr>"
  by (auto simp: deliver_def invoke_def split: sum.splits prod.splits)

lemma deliver_calls_only: "calls_only st (snd (deliver pf st target body confirm))"
  using deliver_shape [of pf st target body confirm] by auto

lemma deliver_first:
  "prefix (trace st @ [SendMessage (Some target) (Text body) None None])
     (trace (snd (deliver pf st target body confirm)))"
  using deliver_shape [of pf st target body confirm] by (auto simp: prefix_def)

lemma notify_snd [simp]: "snd (notify pf st c) = st\<lparr>trace := trace st @ [c]\<rparr>"
  by (auto simp: notify_def invoke_def split: sum.splits prod.splits)

lemma notify_fst: "fst (notify pf st c) \<noteq> Next" "fst (notify pf st c) \<noteq> Return False"
  by (auto simp: notify_def invoke_def split: sum.splits prod.splits)

subsection \<open>The first block of the reply handler\<close>

lemma topic_thread_message_skip:
  "\<not> in_mapped_topic e st msg \<or> reply_to_message msg \<noteq> None \<Longrightarrow>
   topic_thread_message e pf st msg = (Next, st)"
  by (auto simp: topic_thread_message_def in_mapped_topic_def truthy_str_def split: option.splits)

lemma topic_thread_message_hit:
  assumes "USE_TOPICS e" "message_thread_id msg = Some t" "t \<noteq> 0" "reply_to_message msg = None"
    "map_of (topicUsers st) t = Some u" "u \<noteq> []"
  shows "fst (topic_thread_message e pf st msg) \<noteq> Next"
    and "fst (topic_thread_message e pf st msg) \<noteq> Return False"
    and "calls_only st (snd (topic_thread_message e pf st msg))"
    and "prefix (trace st @ [SendMessage (Some u) (Text (text_of msg)) None None])
           (trace (snd (topic_thread_message e pf st msg)))"
proof -
  let ?c = "SendMessage (MANAGEMENT_CHAT_ID e) (Notice (MessageSentTo (pending_name st u)))
              (message_thread_id msg) (Some (message_id msg))"
  let ?d = "deliver pf st u (text_of msg) ?c"
  have eq: "topic_thread_message e pf st msg =
     (case ?d of
        (Inr _, st1) \<Rightarrow> (Return True, st1)
      | (Inl err, st1) \<Rightarrow>
          notify pf st1 (SendMessage (MANAGEMENT_CHAT_ID e) (Notice (FailedToSendMessage err))
            (message_thread_id msg) (Some (message_id msg))))"
    using assms by (simp add: topic_thread_message_def truthy_num_def)
  show "fst (topic_thread_message e pf st msg) \<noteq> Next"
    unfolding eq by (cases ?d) (auto split: sum.splits simp: notify_fst)
  show "fst (topic_thread_message e pf st msg) \<noteq> Return False"
    unfolding eq by (cases ?d) (auto split: sum.splits simp: notify_fst)
  show "calls_only st (snd (topic_thread_message e pf st msg))"
    unfolding eq using deliver_calls_only [of st pf u "text_of msg" ?c]
    by (cases ?d) (auto split: sum.splits intro: calls_only_step)
  show "prefix (trace st @ [SendMessage (Some u) (Text (text_of msg)) None None])
           (trace (snd (topic_thread_message e pf st msg)))"
    unfolding eq using deliver_first [of st u "text_of msg" pf ?c]
    by (cases ?d) (auto split: sum.splits intro: prefix_step)
qed

subsection \<open>The second and third block\<close>

lemma reply_to_forwarded_skip:
  "\<not> truthy_num (reply_to_message msg) \<Longrightarrow> reply_to_forwarded e pf st msg = (Next, st)"
  by (simp add: reply_to_forwarded_def)

lemma deliver_then_calls_only:
  "calls_only st ((snd (deliver pf st u body c))\<lparr>trace := trace (snd (deliver pf st u body c)) @ cs\<rparr>)"
  by (rule calls_only_step [OF deliver_calls_only])

lemma reply_in_topic_fallback_calls_only:
  "calls_only st (snd (reply_in_topic_fallback e pf st msg))"
proof (cases "USE_TOPICS e \<and> truthy_num (message_thread_id msg)
    \<and> truthy_str (map_of (topicUsers st) (the (message_thread_id msg)))")
  case False
  then show ?thesis
    by (auto simp: reply_in_topic_fallback_def truthy_str_def split: option.splits)
next
  case True
  then obtain u where u: "map_of (topicUsers st) (the (message_thread_id msg)) = Some u" "u \<noteq> []"
    by (auto simp: truthy_str_def split: option.splits)
  let ?c = "SendMessage (MANAGEMENT_CHAT_ID e) (Notice (ReplySentTo (pending_name st u)))
              (message_thread_id msg) (Some (message_id msg))"
  let ?d = "deliver pf st u (text_of msg) ?c"
  have eq: "reply_in_topic_fallback e pf st msg =
     (case ?d of
        (Inr _, st1) \<Rightarrow> (Return True, st1)
      | (Inl err, st1) \<Rightarrow>
          (case invoke pf st1
                  (SendMessage (MANAGEMENT_CHAT_ID e) (Notice (FailedToSend err))
                     (message_thread_id msg) (Some (message_id msg))) of
             (Inl err2, st2) \<Rightarrow> (Throw err2, st2)
           | (Inr _, st2) \<Rightarrow> (Next, st2)))"
    using True u by (simp add: reply_in_topic_fallback_def)
  show ?thesis
    unfolding eq using deliver_calls_only [of st pf u "text_of msg" ?c]
    by (cases ?d) (auto simp: invoke_def split: sum.splits intro: calls_only_step)
qed

lemma legacy_reply_command_miss:
  "match_legacy (text_of msg) = None \<Longrightarrow> legacy_reply_command e pf st msg = (Return False, st)"
  by (simp add: legacy_reply_command_def)

lemma legacy_reply_command_hit:
  assumes "match_legacy (text_of msg) = Some (target, body)"
  shows "fst (legacy_reply_command e pf st msg) \<noteq> Next"
    and "fst (legacy_reply_command e pf st msg) \<noteq> Return False"
    and "prefix (trace st @ [SendMessage (Some target) (Text body) None None])
           (trace (snd (legacy_reply_command e pf st msg)))"
proof -
  let ?c = "SendMessage (MANAGEMENT_CHAT_ID e)
              (Notice (LegacyReplySentTo (pending_name st target) body)) None None"
  let ?d = "deliver pf st target body ?c"
  have eq: "legacy_reply_command e pf st msg =
     (case ?d of
        (Inr _, st1) \<Rightarrow>
          (Return True, st1\<lparr>pendingReplies := AList.delete target (pendingReplies st1)\<rparr>)
      | (Inl err, st1) \<Rightarrow>
          notify pf st1
            (SendMessage (MANAGEMENT_CHAT_ID e) (Notice (FailedToSendReply err)) None None))"
    using assms by (simp add: legacy_reply_command_def)
  show "fst (legacy_reply_command e pf st msg) \<noteq> Next"
    unfolding eq by (cases ?d) (auto split: sum.splits simp: notify_fst)
  show "fst (legacy_reply_command e pf st msg) \<noteq> Return False"
    unfolding eq by (cases ?d) (auto split: sum.splits simp: notify_fst)
  show "prefix (trace st @ [SendMessage (Some target) (Text body) None None])
           (trace (snd (legacy_reply_command e pf st msg)))"
    unfolding eq using deliver_first [of st target body pf ?c]
    by (cases ?d) (auto split: sum.splits intro: prefix_step)
qed

subsection \<open>Topics and forwarding\<close>


lemma getOrCreateUserTopic_cached:
  "USE_TOPICS e \<Longrightarrow> map_of (userTopics st) (toString c) = Some t \<Longrightarrow>
   getOrCreateUserTopic e pf st c u = (Some t, st)"
  by (simp add: getOrCreateUserTopic_def)

lemma getOrCreateUserTopic_off:
  "\<not> USE_TOPICS e \<Longrightarrow> getOrCreateUserTopic e pf st c u = (None, st)"
  by (simp add: getOrCreateUserTopic_def)




lemma getOrCreateUserTopic_effect:
  "\<exists>cs. snd (getOrCreateUserTopic e pf st c u) = st\<lparr>trace := trace st @ cs\<rparr>
     \<or> (\<exists>t. map_of (userTopics st) (toString c) = None
           \<and> snd (getOrCreateUserTopic e pf st c u) =
               st\<lparr>trace := trace st @ cs,
                  userTopics := AList.update (toString c) t (userTopics st),
                  topicUsers := AList.update t (toString c) (topicUsers st)\<rparr>)"
  by (cases st)
    (auto simp: getOrCreateUserTopic_def invoke_def getOrCreateUserTopic_catch_def Let_def
      split: sum.splits option.splits)

lemma getOrCreateUserTopic_frame:
  "prefix (trace st) (trace (snd (getOrCreateUserTopic e pf st c u)))"
  "pendingReplies (snd (getOrCreateUserTopic e pf st c u)) = pendingReplies st"
  "forwardedMessageMap (snd (getOrCreateUserTopic e pf st c u)) = forwardedMessageMap st"
  "managementChatVerified (snd (getOrCreateUserTopic e pf st c u)) = managementChatVerified st"
  using getOrCreateUserTopic_effect [of e pf st c u] by auto

lemma testManagementChat_effect:
  "\<exists>cs b. snd (testManagementChat e pf st) = st\<lparr>trace := trace st @ cs, managementChatVerified := b\<rparr>"
proof (cases "truthy_str (MANAGEMENT_CHAT_ID e)")
  case False
  then have "snd (testManagementChat e pf st) = st\<lparr>trace := trace st @ [], managementChatVerified := managementChatVerified st\<rparr>"
    by (simp add: testManagementChat_def)
  then show ?thesis by blast
next
  case True
  then show ?thesis
    by (cases st) (auto simp: testManagementChat_def invoke_def split: sum.splits)
qed

lemma testManagementChat_frame:
  "prefix (trace st) (trace (snd (testManagementChat e pf st)))"
  "pendingReplies (snd (testManagementChat e pf st)) = pendingReplies st"
  "forwardedMessageMap (snd (testManagementChat e pf st)) = forwardedMessageMap st"
  "userTopics (snd (testManagementChat e pf st)) = userTopics st"
  "topicUsers (snd (testManagementChat e pf st)) = topicUsers st"
  using testManagementChat_effect [of e pf st] by auto

lemma send_and_store_frame:
  "prefix (trace st) (trace (send_and_store e pf st m tid))"
  by (simp add: send_and_store_def invoke_def split: sum.splits)

lemma topic_resolution_frame:
  assumes g: "(if USE_TOPICS e then getOrCreateUserTopic e pf st c u else (None, st)) = (tid, st1)"
  shows "prefix (trace st) (trace st1)"
    and "pendingReplies st1 = pendingReplies st"
    and "forwardedMessageMap st1 = forwardedMessageMap st"
proof -
  have "st1 = st \<or> st1 = snd (getOrCreateUserTopic e pf st c u)"
    using g by (auto split: if_splits dest: arg_cong [where f = snd])
  then show "prefix (trace st) (trace st1)"
    and "pendingReplies st1 = pendingReplies st"
    and "forwardedMessageMap st1 = forwardedMessageMap st"
    using getOrCreateUserTopic_frame [where st = st and e = e and pf = pf and c = c and u = u] by auto
qed

lemma forwardToManagement_try_frame:
  "prefix (trace st) (trace (forwardToManagement_try e pf st m))"
proof -
  obtain tid st1 where g: "(if USE_TOPICS e then getOrCreateUserTopic e pf st (chat_id m) (display_name m)
               else (None, st)) = (tid, st1)"
    by (cases "(if USE_TOPICS e then getOrCreateUserTopic e pf st (chat_id m) (display_name m)
               else (None, st))") blast
  have "prefix (trace st) (trace st1)"
    by (rule topic_resolution_frame [OF g])
  moreover have "prefix (trace st1) (trace (send_and_store e pf st1 m tid))"
    by (rule send_and_store_frame)
  ultimately show ?thesis
    by (simp add: forwardToManagement_try_def g)
qed

lemma forwardToManagement_frame:
  "prefix (trace st) (trace (forwardToManagement e pf st m))"
  using testManagementChat_frame(1) [of st e pf]
    forwardToManagement_try_frame [of "snd (testManagementChat e pf st)" e pf m]
    forwardToManagement_try_frame [of st e pf m]
  by (auto simp: forwardToManagement_def split: prod.splits bool.splits
      intro: prefix_order.order_trans)

lemma MANAGEMENT_CHAT_ID_truthy: "MANAGEMENT_CHAT_ID e = Some m \<Longrightarrow> truthy_str (MANAGEMENT_CHAT_ID e)"
  by (auto simp: MANAGEMENT_CHAT_ID_def Let_def split: if_splits)

lemma on_message_external:
  assumes "MANAGEMENT_CHAT_ID e = Some m" and "\<not> from_is_bot msg" and "toString (chat_id msg) \<noteq> m"
  shows "on_message e pf st msg =
     (case invoke pf st (LogMessage ''telegram'' (Inbound msg)) of
        (Inl err, st1) \<Rightarrow> st1
      | (Inr _, st1) \<Rightarrow> forwardToManagement e pf st1 msg)"
  using assms MANAGEMENT_CHAT_ID_truthy [OF assms(1)] by (simp add: on_message_def)

lemma on_message_setup:
  assumes "MANAGEMENT_CHAT_ID e = None" and "\<not> from_is_bot msg"
  shows "on_message e pf st msg =
     st\<lparr>trace := trace st @ [SendMessage (Some (toString (chat_id msg)))
        (Notice (SetupMessage (toString (chat_id msg))
           (chat_type msg = ''group'' \<or> chat_type msg = ''supergroup''))) None None]\<rparr>"
  using assms by (simp add: on_message_def truthy_str_def setupManagementChatId_def)

subsection \<open>What the management branch changes\<close>

lemma topic_thread_message_calls_only:
  "calls_only st (snd (topic_thread_message e pf st msg))"
proof (cases "in_mapped_topic e st msg \<and> reply_to_message msg = None")
  case False
  then show ?thesis
    using topic_thread_message_skip [of e st msg pf] by auto
next
  case True
  then obtain t u where "message_thread_id msg = Some t" "t \<noteq> 0"
      "map_of (topicUsers st) t = Some u" "u \<noteq> []" "USE_TOPICS e" "reply_to_message msg = None"
    by (auto simp: in_mapped_topic_def truthy_num_def truthy_str_def split: option.splits)
  then show ?thesis
    using topic_thread_message_hit(3) [of e msg t st u pf] by simp
qed

lemma reply_to_forwarded_calls_only:
  "calls_only st (snd (reply_to_forwarded e pf st msg))"
proof (cases "truthy_num (reply_to_message msg)
    \<and> truthy_str (map_of (forwardedMessageMap st) (toString (the (reply_to_message msg))))")
  case False
  then show ?thesis
    using reply_in_topic_fallback_calls_only [of st e pf msg]
    by (auto simp: reply_to_forwarded_def truthy_str_def split: option.splits)
next
  case True
  then obtain u where u: "map_of (forwardedMessageMap st) (toString (the (reply_to_message msg))) = Some u"
      "u \<noteq> []" "truthy_num (reply_to_message msg)"
    by (auto simp: truthy_str_def split: option.splits)
  define thread where "thread =
     (case map_of (pendingReplies st) u of
        None \<Rightarrow> None
      | Some p \<Rightarrow> if truthy_num (topicId p) \<and> USE_TOPICS e then topicId p else None)"
  let ?c = "SendMessage (MANAGEMENT_CHAT_ID e) (Notice (ReplySentTo (pending_name st u)))
              thread (Some (message_id msg))"
  let ?d = "deliver pf st u (text_of msg) ?c"
  have eq: "reply_to_forwarded e pf st msg =
     (case ?d of
        (Inr _, st1) \<Rightarrow> (Return True, st1)
      | (Inl err, st1) \<Rightarrow>
          notify pf st1
            (SendMessage (MANAGEMENT_CHAT_ID e) (Notice (FailedToSendReply err))
               None (Some (message_id msg))))"
    using u by (simp add: reply_to_forwarded_def thread_def)
  show ?thesis
    unfolding eq using deliver_calls_only [of st pf u "text_of msg" ?c]
    by (cases ?d) (auto split: sum.splits intro: calls_only_step)
qed

lemma legacy_reply_command_effect:
  "\<exists>st1. calls_only st st1
     \<and> (snd (legacy_reply_command e pf st msg) = st1
        \<or> (\<exists>target body. match_legacy (text_of msg) = Some (target, body)
              \<and> snd (legacy_reply_command e pf st msg) =
                  st1\<lparr>pendingReplies := AList.delete target (pendingReplies st1)\<rparr>))"
proof (cases "match_legacy (text_of msg)")
  case None
  then show ?thesis
    by (auto simp: legacy_reply_command_miss intro: exI [of _ st])
next
  case (Some tb)
  obtain target body where tb: "tb = (target, body)" by (cases tb)
  let ?c = "SendMessage (MANAGEMENT_CHAT_ID e)
              (Notice (LegacyReplySentTo (pending_name st target) body)) None None"
  let ?d = "deliver pf st target body ?c"
  have eq: "legacy_reply_command e pf st msg =
     (case ?d of
        (Inr _, st1) \<Rightarrow>
          (Return True, st1\<lparr>pendingReplies := AList.delete target (pendingReplies st1)\<rparr>)
      | (Inl err, st1) \<Rightarrow>
          notify pf st1
            (SendMessage (MANAGEMENT_CHAT_ID e) (Notice (FailedToSendReply err)) None None))"
    using Some tb by (simp add: legacy_reply_command_def)
  have d: "calls_only st (snd ?d)" by (rule deliver_calls_only)
  show ?thesis
  proof (cases ?d)
    case (Pair r st1)
    with d have c1: "calls_only st st1" by simp
    show ?thesis
    proof (cases r)
      case (Inl err)
      with Pair c1 show ?thesis
        unfolding eq by (auto intro!: exI [of _ "st1\<lparr>trace := trace st1 @ [_]\<rparr>"] calls_only_step)
    next
      case (Inr x)
      with Pair c1 Some tb show ?thesis
        unfolding eq by (auto intro!: exI [of _ st1])
    qed
  qed
qed

lemma handleManagementReply_effect:
  "\<exists>st1. calls_only st st1
     \<and> (snd (handleManagementReply e pf st msg) = st1
        \<or> (\<exists>target body. match_legacy (text_of msg) = Some (target, body)
              \<and> snd (handleManagementReply e pf st msg) =
                  st1\<lparr>pendingReplies := AList.delete target (pendingReplies st1)\<rparr>))"
proof -
  obtain r1 s1 where 1: "topic_thread_message e pf st msg = (r1, s1)"
    by (cases "topic_thread_message e pf st msg")
  obtain r2 s2 where 2: "reply_to_forwarded e pf s1 msg = (r2, s2)"
    by (cases "reply_to_forwarded e pf s1 msg")
  have c1: "calls_only st s1"
    using topic_thread_message_calls_only [of st e pf msg] 1 by simp
  have c2: "calls_only s1 s2"
    using reply_to_forwarded_calls_only [of s1 e pf msg] 2 by simp
  have c12: "calls_only st s2"
    by (rule calls_only_trans [OF c1 c2])
  obtain st3 where 3: "calls_only s2 st3"
     "snd (legacy_reply_command e pf s2 msg) = st3
        \<or> (\<exists>target body. match_legacy (text_of msg) = Some (target, body)
              \<and> snd (legacy_reply_command e pf s2 msg) =
                  st3\<lparr>pendingReplies := AList.delete target (pendingReplies st3)\<rparr>)"
    using legacy_reply_command_effect [of s2 e pf msg] by blast
  have c3: "calls_only st st3"
    by (rule calls_only_trans [OF c12 3(1)])
  have "snd (handleManagementReply e pf st msg) = s1
      \<or> snd (handleManagementReply e pf st msg) = s2
      \<or> snd (handleManagementReply e pf st msg) = snd (legacy_reply_command e pf s2 msg)"
    by (auto simp: handleManagementReply_def 1 2 split: flow.splits)
  then consider (a) "snd (handleManagementReply e pf st msg) = s1"
    | (b) "snd (handleManagementReply e pf st msg) = s2"
    | (c) "snd (handleManagementReply e pf st msg) = snd (legacy_reply_command e pf s2 msg)"
    by blast
  then show ?thesis
  proof cases
    case a
    show ?thesis
      by (rule exI [of _ s1], rule conjI [OF c1], rule disjI1, rule a)
  next
    case b
    show ?thesis
      by (rule exI [of _ s2], rule conjI [OF c12], rule disjI1, rule b)
  next
    case c
    from 3(2) show ?thesis
    proof
      assume "snd (legacy_reply_command e pf s2 msg) = st3"
      with c have "snd (handleManagementReply e pf st msg) = st3" by simp
      then show ?thesis
        by (intro exI [of _ st3] conjI c3 disjI1)
    next
      assume "\<exists>target body. match_legacy (text_of msg) = Some (target, body)
              \<and> snd (legacy_reply_command e pf s2 msg) =
                  st3\<lparr>pendingReplies := AList.delete target (pendingReplies st3)\<rparr>"
      with c have "\<exists>target body. match_legacy (text_of msg) = Some (target, body)
              \<and> snd (handleManagementReply e pf st msg) =
                  st3\<lparr>pendingReplies := AList.delete target (pendingReplies st3)\<rparr>"
        by simp
      then show ?thesis
        by (intro exI [of _ st3] conjI c3 disjI2)
    qed
  qed
qed

lemma handleInfoCommand_calls_only:
  "calls_only st (snd (handleInfoCommand e pf st msg))"
  by (auto simp: handleInfoCommand_def split: option.splits)

lemma management_commands_effect:
  "\<exists>cs. management_commands e pf st msg = st\<lparr>trace := trace st @ cs\<rparr>
     \<or> (\<exists>chatId tid. USE_TOPICS e
          \<and> management_commands e pf st msg =
              st\<lparr>userTopics := AList.update chatId tid (userTopics st),
                 topicUsers := AList.update tid chatId (topicUsers st),
                 trace := trace st @ cs\<rparr>)"
proof -
  define linkMatch where "linkMatch = (case msg_text msg of None \<Rightarrow> None | Some t \<Rightarrow> match_link t)"
  define M where "M = MANAGEMENT_CHAT_ID e"
  define A where "A = snd (invoke pf st (SendMessage M (Notice ConnectionWorking) None None))"
  define B where "B =
     (if length (userTopics st) = 0 then
        snd (invoke pf st
          (SendMessage M
             (Notice (NoTopicsYet (map (\<lambda>kp. (username (snd kp), fst kp)) (pendingReplies st))))
             None None))
      else
        snd (invoke pf st
          (SendMessage M (Notice (ActiveTopics (map (topic_entry st) (userTopics st)))) None None)))"
  define chatId where "chatId = fst (the linkMatch)"
  define tid where "tid = parseInt (snd (the linkMatch))"
  define C where "C = snd (invoke pf
       (st\<lparr>userTopics := AList.update chatId tid (userTopics st),
           topicUsers := AList.update tid chatId (topicUsers st)\<rparr>)
       (SendMessage M (Notice (TopicLinked chatId tid)) None None))"
  define D where "D = snd (invoke pf st (SendMessage M (Notice ManagementHelp) None None))"
  define isTest where "isTest = (msg_text msg = Some ''/test'')"
  define isTopics where "isTopics = (msg_text msg = Some ''/topics'' \<and> USE_TOPICS e)"
  define isLink where "isLink = (linkMatch \<noteq> None \<and> USE_TOPICS e)"
  define isHelp where "isHelp = (msg_text msg = Some ''/help'' \<or> msg_text msg = Some ''help'')"
  have eq: "management_commands e pf st msg =
     (if isTest then A else if isTopics then B else if isLink then C else if isHelp then D else st)"
    unfolding management_commands_def Let_def A_def B_def C_def D_def linkMatch_def M_def
      chatId_def tid_def isTest_def isTopics_def isLink_def isHelp_def
    by (rule refl)
  have a: "A = st\<lparr>trace := trace st @ [SendMessage M (Notice ConnectionWorking) None None]\<rparr>"
    by (simp add: A_def)
  have b: "\<exists>c. B = st\<lparr>trace := trace st @ [c]\<rparr>"
    by (cases "length (userTopics st) = 0") (simp_all add: B_def, blast+)
  have c: "C = st\<lparr>userTopics := AList.update chatId tid (userTopics st),
                 topicUsers := AList.update tid chatId (topicUsers st),
                 trace := trace st @ [SendMessage M (Notice (TopicLinked chatId tid)) None None]\<rparr>"
    by (simp add: C_def)
  have d: "D = st\<lparr>trace := trace st @ [SendMessage M (Notice ManagementHelp) None None]\<rparr>"
    by (simp add: D_def)
  have n: "st = st\<lparr>trace := trace st @ []\<rparr>"
    by simp
  consider (test) isTest | (topics) "\<not> isTest" isTopics | (link) "\<not> isTest" "\<not> isTopics" isLink
    | (hlp) "\<not> isTest" "\<not> isTopics" "\<not> isLink" isHelp
    | (none) "\<not> isTest" "\<not> isTopics" "\<not> isLink" "\<not> isHelp"
    by blast
  then show ?thesis
  proof cases
    case test
    then have "management_commands e pf st msg = A" by (simp only: eq if_True)
    with a show ?thesis by blast
  next
    case topics
    then have "management_commands e pf st msg = B" by (simp only: eq if_True if_False)
    with b show ?thesis by metis
  next
    case link
    then have "management_commands e pf st msg = C" by (simp only: eq if_True if_False)
    moreover from link have "USE_TOPICS e" by (simp add: isLink_def)
    ultimately show ?thesis using c by blast
  next
    case hlp
    then have "management_commands e pf st msg = D" by (simp only: eq if_True if_False)
    with d show ?thesis by blast
  next
    case none
    then have "management_commands e pf st msg = st" by (simp only: eq if_False)
    with n show ?thesis by metis
  qed
qed

subsection \<open>What a handler changes in the forwarded-message map\<close>

lemma handleManagementReply_index:
  "forwardedMessageMap (snd (handleManagementReply e pf st msg)) = forwardedMessageMap st"
proof -
  obtain st1 where 1: "calls_only st st1"
    and 2: "snd (handleManagementReply e pf st msg) = st1
        \<or> (\<exists>target body. match_legacy (text_of msg) = Some (target, body)
              \<and> snd (handleManagementReply e pf st msg) =
                  st1\<lparr>pendingReplies := AList.delete target (pendingReplies st1)\<rparr>)"
    using handleManagementReply_effect [of st e pf msg] by blast
  from 2 have "forwardedMessageMap (snd (handleManagementReply e pf st msg)) = forwardedMessageMap st1"
    by auto
  then show ?thesis
    using calls_only_fields(2) [OF 1] by simp
qed

lemma handleManagementReply_tables:
  "userTopics (snd (handleManagementReply e pf st msg)) = userTopics st"
  "topicUsers (snd (handleManagementReply e pf st msg)) = topicUsers st"
proof -
  obtain st1 where 1: "calls_only st st1"
    and 2: "snd (handleManagementReply e pf st msg) = st1
        \<or> (\<exists>target body. match_legacy (text_of msg) = Some (target, body)
              \<and> snd (handleManagementReply e pf st msg) =
                  st1\<lparr>pendingReplies := AList.delete target (pendingReplies st1)\<rparr>)"
    using handleManagementReply_effect [of st e pf msg] by blast
  from 2 have "userTopics (snd (handleManagementReply e pf st msg)) = userTopics st1"
    and "topicUsers (snd (handleManagementReply e pf st msg)) = topicUsers st1"
    by auto
  then show "userTopics (snd (handleManagementReply e pf st msg)) = userTopics st"
    and "topicUsers (snd (handleManagementReply e pf st msg)) = topicUsers st"
    using calls_only_fields(3,4) [OF 1] by simp_all
qed

lemma management_commands_index:
  "forwardedMessageMap (management_commands e pf st msg) = forwardedMessageMap st"
  using management_commands_effect [of e pf st msg] by auto

lemma management_message_cases:
  "management_message e pf st msg = snd (handleManagementReply e pf st msg)
   \<or> management_message e pf st msg =
       snd (handleInfoCommand e pf (snd (handleManagementReply e pf st msg)) msg)
   \<or> management_message e pf st msg =
       management_commands e pf
         (snd (handleInfoCommand e pf (snd (handleManagementReply e pf st msg)) msg)) msg"
proof -
  obtain r1 s1 where 1: "handleManagementReply e pf st msg = (r1, s1)"
    by (cases "handleManagementReply e pf st msg")
  obtain r2 s2 where 2: "handleInfoCommand e pf s1 msg = (r2, s2)"
    by (cases "handleInfoCommand e pf s1 msg")
  show ?thesis
    by (simp add: management_message_def 1 2 split: flow.splits bool.splits)
qed

lemma management_message_index:
  "forwardedMessageMap (management_message e pf st msg) = forwardedMessageMap st"
proof -
  let ?s1 = "snd (handleManagementReply e pf st msg)"
  let ?s2 = "snd (handleInfoCommand e pf ?s1 msg)"
  have 1: "forwardedMessageMap ?s1 = forwardedMessageMap st"
    by (rule handleManagementReply_index)
  have 2: "forwardedMessageMap ?s2 = forwardedMessageMap ?s1"
    by (rule calls_only_fields(2) [OF handleInfoCommand_calls_only])
  have 3: "forwardedMessageMap (management_commands e pf ?s2 msg) = forwardedMessageMap ?s2"
    by (rule management_commands_index)
  show ?thesis
    using management_message_cases [of e pf st msg] 1 2 3 by auto
qed

lemma setupManagementChatId_calls_only: "calls_only st (setupManagementChatId pf st msg)"
  by (simp add: setupManagementChatId_def Let_def)

lemma answer_command_calls_only: "calls_only st (answer_command pf st msg n)"
  by (auto simp: answer_command_def invoke_def split: sum.splits intro: calls_only_step)

lemma on_start_calls_only: "calls_only st (on_start e pf st msg)"
  by (simp add: on_start_def setupManagementChatId_calls_only answer_command_calls_only)

lemma on_help_calls_only: "calls_only st (on_help e pf st msg)"
  by (simp add: on_help_def answer_command_calls_only)

lemma send_and_store_index:
  "forwardedMessageMap (send_and_store e pf st m tid) = forwardedMessageMap st
   \<or> (\<exists>mid. forwardedMessageMap (send_and_store e pf st m tid) =
         AList.update (toString mid) (toString (chat_id m)) (forwardedMessageMap st))"
  by (auto simp: send_and_store_def invoke_def split: sum.splits)

lemma forwardToManagement_try_index:
  "forwardedMessageMap (forwardToManagement_try e pf st m) = forwardedMessageMap st
   \<or> (\<exists>mid. forwardedMessageMap (forwardToManagement_try e pf st m) =
         AList.update (toString mid) (toString (chat_id m)) (forwardedMessageMap st))"
proof -
  obtain tid st1 where g: "(if USE_TOPICS e then getOrCreateUserTopic e pf st (chat_id m) (display_name m)
               else (None, st)) = (tid, st1)"
    by (cases "(if USE_TOPICS e then getOrCreateUserTopic e pf st (chat_id m) (display_name m)
               else (None, st))") blast
  have "forwardedMessageMap st1 = forwardedMessageMap st"
    by (rule topic_resolution_frame [OF g])
  then show ?thesis
    using send_and_store_index [of e pf st1 m tid]
    by (simp add: forwardToManagement_try_def g)
qed

lemma forwardToManagement_cases:
  "forwardToManagement e pf st m = st
   \<or> forwardToManagement e pf st m = snd (testManagementChat e pf st)
   \<or> forwardToManagement e pf st m = forwardToManagement_try e pf (snd (testManagementChat e pf st)) m
   \<or> forwardToManagement e pf st m = forwardToManagement_try e pf st m"
  by (cases "testManagementChat e pf st") (auto simp: forwardToManagement_def split: bool.splits)

lemma forwardToManagement_index:
  "forwardedMessageMap (forwardToManagement e pf st m) = forwardedMessageMap st
   \<or> (\<exists>mid. forwardedMessageMap (forwardToManagement e pf st m) =
         AList.update (toString mid) (toString (chat_id m)) (forwardedMessageMap st))"
proof -
  let ?t = "snd (testManagementChat e pf st)"
  have t: "forwardedMessageMap ?t = forwardedMessageMap st"
    by (rule testManagementChat_frame)
  consider "forwardToManagement e pf st m = st" | "forwardToManagement e pf st m = ?t"
    | "forwardToManagement e pf st m = forwardToManagement_try e pf ?t m"
    | "forwardToManagement e pf st m = forwardToManagement_try e pf st m"
    using forwardToManagement_cases [of e pf st m] by blast
  then show ?thesis
    using t forwardToManagement_try_index [of e pf ?t m] forwardToManagement_try_index [of e pf st m]
    by cases simp_all
qed

lemma on_message_cases:
  "on_message e pf st m = setupManagementChatId pf st m
   \<or> on_message e pf st m = management_message e pf st m
   \<or> on_message e pf st m = st\<lparr>trace := trace st @ [LogMessage ''telegram'' (Inbound m)]\<rparr>
   \<or> on_message e pf st m =
       forwardToManagement e pf (st\<lparr>trace := trace st @ [LogMessage ''telegram'' (Inbound m)]\<rparr>) m
   \<or> on_message e pf st m = st"
  by (auto simp: on_message_def invoke_def split: sum.splits)

lemma on_message_index:
  "forwardedMessageMap (on_message e pf st m) = forwardedMessageMap st
   \<or> (\<exists>mid. forwardedMessageMap (on_message e pf st m) =
         AList.update (toString mid) (toString (chat_id m)) (forwardedMessageMap st))"
proof -
  let ?l = "st\<lparr>trace := trace st @ [LogMessage ''telegram'' (Inbound m)]\<rparr>"
  consider "on_message e pf st m = setupManagementChatId pf st m"
    | "on_message e pf st m = management_message e pf st m"
    | "on_message e pf st m = ?l"
    | "on_message e pf st m = forwardToManagement e pf ?l m"
    | "on_message e pf st m = st"
    using on_message_cases [of e pf st m] by blast
  then show ?thesis
  proof cases
    case 1
    then show ?thesis
      using calls_only_fields(2) [OF setupManagementChatId_calls_only [of st pf m]] by simp
  next
    case 2
    then show ?thesis by (simp add: management_message_index)
  next
    case 3
    then show ?thesis by simp
  next
    case 4
    then show ?thesis using forwardToManagement_index [of e pf ?l m] by simp
  next
    case 5
    then show ?thesis by simp
  qed
qed

lemma tg_step_index:
  "forwardedMessageMap (tg_step e pf st ev) = forwardedMessageMap st
   \<or> (\<exists>mid m. ev = OnMessage m
         \<and> forwardedMessageMap (tg_step e pf st ev) =
              AList.update (toString mid) (toString (chat_id m)) (forwardedMessageMap st))"
proof (cases ev)
  case (OnMessage m)
  then show ?thesis using on_message_index [of e pf st m] by auto
next
  case (OnStart m)
  then show ?thesis using calls_only_fields(2) [OF on_start_calls_only [of st e pf m]] by simp
next
  case (OnHelp m)
  then show ?thesis using calls_only_fields(2) [OF on_help_calls_only [of st e pf m]] by simp
next
  case StartupTest
  then show ?thesis using testManagementChat_frame(3) [of e pf st] by simp
qed

subsection \<open>Forwarding and the reply to a forwarded message\<close>

lemma digits_of_nonempty: "digits_of n \<noteq> []"
  by (subst digits_of.simps) simp

lemma toString_nonempty: "toString i \<noteq> []"
  by (simp add: toString_def digits_of_nonempty)

lemma send_and_store_trace:
  "trace (send_and_store e pf st m tid) = trace st @ [forward_call e m tid]"
  by (simp add: send_and_store_def invoke_def split: sum.splits)

lemma send_and_store_success:
  assumes "pf (length (trace st)) (forward_call e m tid) = Inr mid"
  shows "map_of (forwardedMessageMap (send_and_store e pf st m tid)) (toString mid) =
           Some (toString (chat_id m))"
    and "map_of (pendingReplies (send_and_store e pf st m tid)) (toString (chat_id m)) =
           Some \<lparr>username = display_name m, originalMessage = messageText_of m,
                 forwardedMessageId = mid, topicId = tid\<rparr>"
  using assms by (simp_all add: send_and_store_def invoke_def update_conv')

lemma forwardToManagement_try_form:
  "\<exists>tid st1. prefix (trace st) (trace st1)
     \<and> forwardToManagement_try e pf st m = send_and_store e pf st1 m tid"
proof -
  obtain tid st1 where g: "(if USE_TOPICS e then getOrCreateUserTopic e pf st (chat_id m) (display_name m)
               else (None, st)) = (tid, st1)"
    by (cases "(if USE_TOPICS e then getOrCreateUserTopic e pf st (chat_id m) (display_name m)
               else (None, st))") blast
  have "prefix (trace st) (trace st1)"
    by (rule topic_resolution_frame [OF g])
  moreover have "forwardToManagement_try e pf st m = send_and_store e pf st1 m tid"
    by (simp add: forwardToManagement_try_def g)
  ultimately show ?thesis by blast
qed

lemma testManagementChat_trace:
  "trace (snd (testManagementChat e pf st)) = trace st
   \<or> trace (snd (testManagementChat e pf st)) =
       trace st @ [SendMessage (MANAGEMENT_CHAT_ID e) (Notice TestMessage) None None]"
  by (auto simp: testManagementChat_def invoke_def split: sum.splits)

lemma forwardToManagement_form:
  "trace (forwardToManagement e pf st m) = trace st
   \<or> trace (forwardToManagement e pf st m) =
       trace st @ [SendMessage (MANAGEMENT_CHAT_ID e) (Notice TestMessage) None None]
   \<or> (\<exists>tid st1. prefix (trace st) (trace st1)
         \<and> forwardToManagement e pf st m = send_and_store e pf st1 m tid)"
proof -
  let ?t = "snd (testManagementChat e pf st)"
  have pt: "prefix (trace st) (trace ?t)"
    by (rule testManagementChat_frame)
  consider "forwardToManagement e pf st m = st" | "forwardToManagement e pf st m = ?t"
    | "forwardToManagement e pf st m = forwardToManagement_try e pf ?t m"
    | "forwardToManagement e pf st m = forwardToManagement_try e pf st m"
    using forwardToManagement_cases [of e pf st m] by blast
  then show ?thesis
  proof cases
    case 1
    then show ?thesis by simp
  next
    case 2
    then show ?thesis using testManagementChat_trace [of e pf st] by auto
  next
    case 3
    obtain tid st1 where "prefix (trace ?t) (trace st1)"
      "forwardToManagement_try e pf ?t m = send_and_store e pf st1 m tid"
      using forwardToManagement_try_form [of ?t e pf m] by blast
    with 3 pt have "prefix (trace st) (trace st1) \<and> forwardToManagement e pf st m = send_and_store e pf st1 m tid"
      by (auto intro: prefix_order.order_trans)
    then show ?thesis by blast
  next
    case 4
    then show ?thesis using forwardToManagement_try_form [of st e pf m] by auto
  qed
qed

lemma reply_to_forwarded_hit:
  assumes "reply_to_message msg = Some f" and "f \<noteq> 0"
    and "map_of (forwardedMessageMap st) (toString f) = Some u" and "u \<noteq> []"
  shows "fst (reply_to_forwarded e pf st msg) \<noteq> Next"
    and "fst (reply_to_forwarded e pf st msg) \<noteq> Return False"
    and "prefix (trace st @ [SendMessage (Some u) (Text (text_of msg)) None None])
           (trace (snd (reply_to_forwarded e pf st msg)))"
proof -
  define thread where "thread =
     (case map_of (pendingReplies st) u of
        None \<Rightarrow> None
      | Some p \<Rightarrow> if truthy_num (topicId p) \<and> USE_TOPICS e then topicId p else None)"
  let ?c = "SendMessage (MANAGEMENT_CHAT_ID e) (Notice (ReplySentTo (pending_name st u)))
              thread (Some (message_id msg))"
  let ?d = "deliver pf st u (text_of msg) ?c"
  have eq: "reply_to_forwarded e pf st msg =
     (case ?d of
        (Inr _, st1) \<Rightarrow> (Return True, st1)
      | (Inl err, st1) \<Rightarrow>
          notify pf st1
            (SendMessage (MANAGEMENT_CHAT_ID e) (Notice (FailedToSendReply err))
               None (Some (message_id msg))))"
    using assms by (simp add: reply_to_forwarded_def thread_def truthy_num_def)
  show "fst (reply_to_forwarded e pf st msg) \<noteq> Next"
    unfolding eq by (cases ?d) (auto split: sum.splits simp: notify_fst)
  show "fst (reply_to_forwarded e pf st msg) \<noteq> Return False"
    unfolding eq by (cases ?d) (auto split: sum.splits simp: notify_fst)
  show "prefix (trace st @ [SendMessage (Some u) (Text (text_of msg)) None None])
           (trace (snd (reply_to_forwarded e pf st msg)))"
    unfolding eq using deliver_first [of st u "text_of msg" pf ?c]
    by (cases ?d) (auto split: sum.splits intro: prefix_step)
qed

lemma reply_resolves:
  assumes "reply_to_message r = Some f" and "f \<noteq> 0"
    and "map_of (forwardedMessageMap st) (toString f) = Some u" and "u \<noteq> []"
  shows "prefix (trace st @ [SendMessage (Some u) (Text (text_of r)) None None])
           (trace (snd (handleManagementReply e pf st r)))"
proof -
  have 1: "topic_thread_message e pf st r = (Next, st)"
    using assms(1) by (simp add: topic_thread_message_skip)
  note h = reply_to_forwarded_hit [OF assms, of e pf]
  have "handleManagementReply e pf st r = reply_to_forwarded e pf st r"
    using h(1) by (cases "reply_to_forwarded e pf st r")
      (auto simp: handleManagementReply_def 1 split: flow.splits)
  then show ?thesis using h(3) by simp
qed

subsection \<open>The legacy command and the pending reply\<close>












subsection \<open>Topic creation that is rejected\<close>



subsection \<open>The calls of the message handler for a user\<close>






subsection \<open>Discord: the cached thread\<close>

lemma dc_invoke_simps [simp]:
  "fst (dc_invoke pf st c) = pf (length (dc_trace st)) c"
  "snd (dc_invoke pf st c) = st\<lparr>dc_trace := dc_trace st @ [c]\<rparr>"
  by (simp_all add: dc_invoke_def)

lemma verify_cached_thread_live:
  assumes "map_of (userThreads st) uid = Some tid"
    and "pf (length (dc_trace st)) (GuildsFetch (MANAGEMENT_GUILD_ID e)) = Object g"
    and "pf (length (dc_trace st) + 1) (ChannelsFetch g (Some tid)) = Object t"
  shows "verify_cached_thread e pf st uid =
     (Some t, st\<lparr>dc_trace := dc_trace st @
        [GuildsFetch (MANAGEMENT_GUILD_ID e), ChannelsFetch g (Some tid)]\<rparr>)"
  using assms by (simp add: verify_cached_thread_def dc_invoke_def)

lemma verify_cached_thread_stale:
  assumes "map_of (userThreads st) uid = Some tid"
    and "(\<forall>g. pf (length (dc_trace st)) (GuildsFetch (MANAGEMENT_GUILD_ID e)) \<noteq> Object g)
       \<or> (\<exists>g err. pf (length (dc_trace st)) (GuildsFetch (MANAGEMENT_GUILD_ID e)) = Object g
             \<and> pf (length (dc_trace st) + 1) (ChannelsFetch g (Some tid)) = Rejected err)"
  shows "fst (verify_cached_thread e pf st uid) = None"
    and "userThreads (snd (verify_cached_thread e pf st uid)) = AList.delete uid (userThreads st)"
    and "threadUsers (snd (verify_cached_thread e pf st uid)) = AList.delete tid (threadUsers st)"
  using assms
  by (auto simp: verify_cached_thread_def dc_invoke_def evict_def split: dc_result.splits)

subsection \<open>What a handler changes in the two tables\<close>

lemma agree_iff:
  "agree fwd bwd \<longleftrightarrow> (\<forall>i u. map_of fwd i = Some u \<longrightarrow> map_of bwd u = Some i)"
proof
  assume a: "agree fwd bwd"
  show "\<forall>i u. map_of fwd i = Some u \<longrightarrow> map_of bwd u = Some i"
  proof (intro allI impI)
    fix i u
    assume m: "map_of fwd i = Some u"
    then have "(i, u) \<in> set fwd" by (rule map_of_SomeD)
    with a m show "map_of bwd u = Some i"
      by (auto simp: agree_def list_all_iff)
  qed
next
  assume "\<forall>i u. map_of fwd i = Some u \<longrightarrow> map_of bwd u = Some i"
  then show "agree fwd bwd"
    by (auto simp: agree_def list_all_iff)
qed

lemma agree_update:
  assumes "agree fwd bwd" and "\<forall>j. map_of fwd j = Some u \<longrightarrow> j = i"
  shows "agree (AList.update i u fwd) (AList.update u i bwd)"
  unfolding agree_iff
proof (intro allI impI)
  fix j v
  assume m: "map_of (AList.update i u fwd) j = Some v"
  show "map_of (AList.update u i bwd) v = Some j"
  proof (cases "j = i")
    case True
    with m show ?thesis by (simp add: update_conv')
  next
    case False
    with m have f: "map_of fwd j = Some v" by (simp add: update_conv')
    with assms(2) False have "v \<noteq> u" by blast
    moreover from assms(1) f have "map_of bwd v = Some j" by (simp add: agree_iff)
    ultimately show ?thesis by (simp add: update_conv')
  qed
qed

lemma agree_delete:
  assumes "agree fwd bwd" and "map_of fwd i = Some u"
  shows "agree (AList.delete i fwd) (AList.delete u bwd)"
  unfolding agree_iff
proof (intro allI impI)
  fix j v
  assume m: "map_of (AList.delete i fwd) j = Some v"
  then have ji: "j \<noteq> i" and f: "map_of fwd j = Some v"
    by (auto simp: delete_conv' split: if_splits)
  from assms(1) f have b: "map_of bwd v = Some j" by (simp add: agree_iff)
  from assms have "map_of bwd u = Some i" by (simp add: agree_iff)
  with b ji have "v \<noteq> u" by auto
  with b show "map_of (AList.delete u bwd) v = Some j"
    by (simp add: delete_conv')
qed

lemma tables_written_same:
  "userTopics st' = userTopics st \<Longrightarrow> topicUsers st' = topicUsers st \<Longrightarrow> tables_written st st'"
  by (simp add: tables_written_def)

lemma tables_written_pair:
  assumes "userTopics st' = AList.update i u (userTopics st)"
    and "topicUsers st' = AList.update u i (topicUsers st)"
  shows "tables_written st st'"
proof -
  have "map_of (userTopics st') i = Some u"
    by (simp add: assms(1) update_conv')
  then have "(i, u) \<in> set (userTopics st')"
    by (rule map_of_SomeD)
  with assms show ?thesis
    unfolding tables_written_def list_ex_iff by force
qed

lemma tables_written_cases:
  assumes "tables_written st st'"
  shows "(userTopics st' = userTopics st \<and> topicUsers st' = topicUsers st)
     \<or> (\<exists>i u. userTopics st' = AList.update i u (userTopics st)
             \<and> topicUsers st' = AList.update u i (topicUsers st))"
  using assms unfolding tables_written_def list_ex_iff by blast

lemma calls_only_tables: "calls_only st st' \<Longrightarrow> tables_written st st'"
  by (rule tables_written_same) (simp_all add: calls_only_fields)

lemma tables_written_from:
  assumes "tables_written b c" and "userTopics b = userTopics a" and "topicUsers b = topicUsers a"
  shows "tables_written a c"
  using tables_written_cases [OF assms(1)] unfolding assms(2,3)
  by (elim disjE exE conjE) (erule (1) tables_written_same, erule (1) tables_written_pair)

lemma management_commands_tables: "tables_written st (management_commands e pf st msg)"
proof -
  obtain cs where "management_commands e pf st msg = st\<lparr>trace := trace st @ cs\<rparr>
     \<or> (\<exists>chatId tid. USE_TOPICS e
          \<and> management_commands e pf st msg =
              st\<lparr>userTopics := AList.update chatId tid (userTopics st),
                 topicUsers := AList.update tid chatId (topicUsers st),
                 trace := trace st @ cs\<rparr>)"
    using management_commands_effect [of e pf st msg] by blast
  then show ?thesis
  proof (elim disjE exE conjE)
    assume "management_commands e pf st msg = st\<lparr>trace := trace st @ cs\<rparr>"
    then show ?thesis by (simp add: tables_written_same)
  next
    fix chatId tid
    assume "management_commands e pf st msg =
              st\<lparr>userTopics := AList.update chatId tid (userTopics st),
                 topicUsers := AList.update tid chatId (topicUsers st),
                 trace := trace st @ cs\<rparr>"
    then show ?thesis by (simp add: tables_written_pair [of _ chatId tid])
  qed
qed

lemma management_message_tables: "tables_written st (management_message e pf st msg)"
proof -
  let ?s1 = "snd (handleManagementReply e pf st msg)"
  let ?s2 = "snd (handleInfoCommand e pf ?s1 msg)"
  have 1: "userTopics ?s1 = userTopics st" "topicUsers ?s1 = topicUsers st"
    by (rule handleManagementReply_tables)+
  have 2: "userTopics ?s2 = userTopics ?s1" "topicUsers ?s2 = topicUsers ?s1"
    using calls_only_fields(3,4) [OF handleInfoCommand_calls_only [of ?s1 e pf msg]] by simp_all
  have 3: "tables_written ?s2 (management_commands e pf ?s2 msg)"
    by (rule management_commands_tables)
  have 4: "tables_written st (management_commands e pf ?s2 msg)"
    by (rule tables_written_from [OF 3]) (simp_all add: 1 2)
  have 5: "tables_written st ?s1" "tables_written st ?s2"
    by (rule tables_written_same; simp add: 1 2)+
  show ?thesis
    using management_message_cases [of e pf st msg] 4 5 by (elim disjE) simp_all
qed

lemma getOrCreateUserTopic_tables: "tables_written st (snd (getOrCreateUserTopic e pf st c u))"
proof -
  obtain cs where "snd (getOrCreateUserTopic e pf st c u) = st\<lparr>trace := trace st @ cs\<rparr>
     \<or> (\<exists>t. map_of (userTopics st) (toString c) = None
           \<and> snd (getOrCreateUserTopic e pf st c u) =
               st\<lparr>trace := trace st @ cs,
                  userTopics := AList.update (toString c) t (userTopics st),
                  topicUsers := AList.update t (toString c) (topicUsers st)\<rparr>)"
    using getOrCreateUserTopic_effect [of e pf st c u] by blast
  then show ?thesis
  proof (elim disjE exE conjE)
    assume "snd (getOrCreateUserTopic e pf st c u) = st\<lparr>trace := trace st @ cs\<rparr>"
    then show ?thesis by (simp add: tables_written_same)
  next
    fix t
    assume "snd (getOrCreateUserTopic e pf st c u) =
               st\<lparr>trace := trace st @ cs,
                  userTopics := AList.update (toString c) t (userTopics st),
                  topicUsers := AList.update t (toString c) (topicUsers st)\<rparr>"
    then show ?thesis by (simp add: tables_written_pair [of _ "toString c" t])
  qed
qed

lemma send_and_store_tables:
  "userTopics (send_and_store e pf st m tid) = userTopics st"
  "topicUsers (send_and_store e pf st m tid) = topicUsers st"
  by (simp_all add: send_and_store_def invoke_def split: sum.splits)

lemma forwardToManagement_try_tables: "tables_written st (forwardToManagement_try e pf st m)"
proof -
  obtain tid st1 where g: "(if USE_TOPICS e then getOrCreateUserTopic e pf st (chat_id m) (display_name m)
               else (None, st)) = (tid, st1)"
    by (cases "(if USE_TOPICS e then getOrCreateUserTopic e pf st (chat_id m) (display_name m)
               else (None, st))") blast
  have "st1 = st \<or> st1 = snd (getOrCreateUserTopic e pf st (chat_id m) (display_name m))"
    using g by (auto split: if_splits dest: arg_cong [where f = snd])
  then have w: "tables_written st st1"
    using getOrCreateUserTopic_tables [where st = st and e = e and pf = pf and c = "chat_id m"
        and u = "display_name m"]
    by (auto simp: tables_written_same)
  have eq: "forwardToManagement_try e pf st m = send_and_store e pf st1 m tid"
    by (simp add: forwardToManagement_try_def g)
  from tables_written_cases [OF w] show ?thesis
    unfolding eq
  proof (elim disjE exE conjE)
    assume "userTopics st1 = userTopics st" "topicUsers st1 = topicUsers st"
    then show "tables_written st (send_and_store e pf st1 m tid)"
      by (intro tables_written_same) (simp_all add: send_and_store_tables)
  next
    fix i u
    assume "userTopics st1 = AList.update i u (userTopics st)"
      "topicUsers st1 = AList.update u i (topicUsers st)"
    then show "tables_written st (send_and_store e pf st1 m tid)"
      by (intro tables_written_pair [of _ i u]) (simp_all add: send_and_store_tables)
  qed
qed

lemma forwardToManagement_tables: "tables_written st (forwardToManagement e pf st m)"
proof -
  let ?t = "snd (testManagementChat e pf st)"
  have t: "userTopics ?t = userTopics st" "topicUsers ?t = topicUsers st"
    by (rule testManagementChat_frame)+
  have 3: "tables_written st (forwardToManagement_try e pf ?t m)"
    by (rule tables_written_from [OF forwardToManagement_try_tables t])
  have 4: "tables_written st (forwardToManagement_try e pf st m)"
    by (rule forwardToManagement_try_tables)
  have 1: "tables_written st st" "tables_written st ?t"
    by (rule tables_written_same; simp add: t)+
  show ?thesis
    using forwardToManagement_cases [of e pf st m] 1 3 4 by (elim disjE) simp_all
qed

lemma on_message_tables: "tables_written st (on_message e pf st m)"
proof -
  let ?l = "st\<lparr>trace := trace st @ [LogMessage ''telegram'' (Inbound m)]\<rparr>"
  have 1: "tables_written st (setupManagementChatId pf st m)"
    by (rule calls_only_tables [OF setupManagementChatId_calls_only])
  have 2: "tables_written st (management_message e pf st m)"
    by (rule management_message_tables)
  have 4: "tables_written st (forwardToManagement e pf ?l m)"
    by (rule tables_written_from [OF forwardToManagement_tables]) simp_all
  have 3: "tables_written st ?l" "tables_written st st"
    by (rule tables_written_same; simp)+
  show ?thesis
    using on_message_cases [of e pf st m] 1 2 3 4 by (elim disjE) simp_all
qed

lemma tg_step_tables: "tables_written st (tg_step e pf st ev)"
proof (cases ev)
  case (OnMessage m)
  then show ?thesis using on_message_tables [of st e pf m] by simp
next
  case (OnStart m)
  then show ?thesis using calls_only_tables [OF on_start_calls_only [of st e pf m]] by simp
next
  case (OnHelp m)
  then show ?thesis using calls_only_tables [OF on_help_calls_only [of st e pf m]] by simp
next
  case StartupTest
  then show ?thesis using testManagementChat_frame(4,5) [of e pf st] by (simp add: tables_written_same)
qed

lemma agree_rebind:
  assumes "agree fwd bwd"
    and "map_of fwd i \<noteq> Some u \<longrightarrow> (\<forall>j. map_of fwd j = Some u \<longrightarrow> j = i)"
  shows "agree (AList.update i u fwd) (AList.update u i bwd)"
proof (rule agree_update [OF assms(1)], intro allI impI)
  fix j
  assume j: "map_of fwd j = Some u"
  show "j = i"
  proof (cases "map_of fwd i = Some u")
    case True
    with assms(1) have "map_of bwd u = Some i" by (simp add: agree_iff)
    moreover from assms(1) j have "map_of bwd u = Some j" by (simp add: agree_iff)
    ultimately show ?thesis by simp
  next
    case False
    with assms(2) j show ?thesis by blast
  qed
qed

lemma tg_step_agree:
  assumes "tables_agree st"
    and "\<forall>i u j. map_of (userTopics (tg_step e pf st ev)) i = Some u
           \<and> map_of (userTopics st) i \<noteq> Some u \<and> map_of (userTopics st) j = Some u \<longrightarrow> j = i"
  shows "tables_agree (tg_step e pf st ev)"
proof -
  let ?st' = "tg_step e pf st ev"
  from tables_written_cases [OF tg_step_tables [of st e pf ev]] show ?thesis
  proof (elim disjE exE conjE)
    assume "userTopics ?st' = userTopics st" "topicUsers ?st' = topicUsers st"
    with assms(1) show ?thesis by (simp add: tables_agree_def)
  next
    fix i u
    assume w: "userTopics ?st' = AList.update i u (userTopics st)"
      "topicUsers ?st' = AList.update u i (topicUsers st)"
    have "map_of (userTopics ?st') i = Some u"
      by (simp add: w(1) update_conv')
    with assms(2) have "map_of (userTopics st) i \<noteq> Some u \<longrightarrow>
        (\<forall>j. map_of (userTopics st) j = Some u \<longrightarrow> j = i)"
      by blast
    with assms(1) show ?thesis
      unfolding tables_agree_def w by (intro agree_rebind)
  qed
qed

lemma verify_cached_thread_tables:
  "(userThreads (snd (verify_cached_thread e pf st uid)) = userThreads st
      \<and> threadUsers (snd (verify_cached_thread e pf st uid)) = threadUsers st)
   \<or> (\<exists>t. map_of (userThreads st) uid = Some t
         \<and> fst (verify_cached_thread e pf st uid) = None
         \<and> userThreads (snd (verify_cached_thread e pf st uid)) = AList.delete uid (userThreads st)
         \<and> threadUsers (snd (verify_cached_thread e pf st uid)) = AList.delete t (threadUsers st))"
  by (auto simp: verify_cached_thread_def dc_invoke_def evict_def split: option.splits dc_result.splits)

lemma create_user_thread_tables:
  "(userThreads (snd (create_user_thread e pf st uid un)) = userThreads st
      \<and> threadUsers (snd (create_user_thread e pf st uid un)) = threadUsers st)
   \<or> (\<exists>t. userThreads (snd (create_user_thread e pf st uid un)) = AList.update uid t (userThreads st)
         \<and> threadUsers (snd (create_user_thread e pf st uid un)) = AList.update t uid (threadUsers st))"
  by (auto simp: create_user_thread_def dc_invoke_def Let_def split: dc_result.splits)

lemma verify_cached_thread_agree:
  assumes "threads_agree st"
  shows "threads_agree (snd (verify_cached_thread e pf st uid))"
  using verify_cached_thread_tables [of e pf st uid] assms
  by (auto simp: threads_agree_def intro: agree_delete)

lemma verify_cached_thread_sub:
  assumes "map_of (userThreads (snd (verify_cached_thread e pf st uid))) j = Some t"
  shows "map_of (userThreads st) j = Some t"
  using verify_cached_thread_tables [of e pf st uid] assms
  by (auto simp: delete_conv' split: if_splits)

lemma getOrCreateUserThread_cases:
  "snd (getOrCreateUserThread e pf st uid un) = st
   \<or> snd (getOrCreateUserThread e pf st uid un) = snd (verify_cached_thread e pf st uid)
   \<or> snd (getOrCreateUserThread e pf st uid un) =
       snd (create_user_thread e pf (snd (verify_cached_thread e pf st uid)) uid un)"
  by (cases "verify_cached_thread e pf st uid")
    (auto simp: getOrCreateUserThread_def split: option.splits)

lemma getOrCreateUserThread_agree:
  assumes "threads_agree st"
    and "\<forall>t j. map_of (userThreads (snd (getOrCreateUserThread e pf st uid un))) uid = Some t
           \<and> map_of (userThreads st) uid \<noteq> Some t \<and> map_of (userThreads st) j = Some t \<longrightarrow> j = uid"
  shows "threads_agree (snd (getOrCreateUserThread e pf st uid un))"
proof -
  let ?s1 = "snd (verify_cached_thread e pf st uid)"
  let ?s2 = "snd (create_user_thread e pf ?s1 uid un)"
  let ?s' = "snd (getOrCreateUserThread e pf st uid un)"
  have a1: "threads_agree ?s1"
    by (rule verify_cached_thread_agree [OF assms(1)])
  from getOrCreateUserThread_cases [of e pf st uid un] show ?thesis
  proof (elim disjE)
    assume "?s' = st"
    with assms(1) show ?thesis by simp
  next
    assume "?s' = ?s1"
    with a1 show ?thesis by simp
  next
    assume eq: "?s' = ?s2"
    from create_user_thread_tables [of e pf ?s1 uid un] show ?thesis
    proof (elim disjE exE conjE)
      assume "userThreads ?s2 = userThreads ?s1" "threadUsers ?s2 = threadUsers ?s1"
      with a1 show ?thesis by (simp add: eq threads_agree_def)
    next
      fix t
      assume w: "userThreads ?s2 = AList.update uid t (userThreads ?s1)"
        "threadUsers ?s2 = AList.update t uid (threadUsers ?s1)"
      have b: "map_of (userThreads ?s') uid = Some t"
        by (simp add: eq w(1) update_conv')
      have "\<forall>j. map_of (userThreads ?s1) j = Some t \<longrightarrow> j = uid"
      proof (intro allI impI)
        fix j
        assume "map_of (userThreads ?s1) j = Some t"
        then have j: "map_of (userThreads st) j = Some t"
          by (rule verify_cached_thread_sub)
        show "j = uid"
        proof (cases "map_of (userThreads st) uid = Some t")
          case True
          with assms(1) have "map_of (threadUsers st) t = Some uid"
            by (simp add: threads_agree_def agree_iff)
          moreover from assms(1) j have "map_of (threadUsers st) t = Some j"
            by (simp add: threads_agree_def agree_iff)
          ultimately show ?thesis by simp
        next
          case False
          with assms(2) b j show ?thesis by blast
        qed
      qed
      with a1 have "agree (AList.update uid t (userThreads ?s1)) (AList.update t uid (threadUsers ?s1))"
        unfolding threads_agree_def by (intro agree_update) 
      then show ?thesis
        by (simp add: eq threads_agree_def w)
    qed
  qed
qed

subsection \<open>The example inputs, evaluated\<close>

lemma toString_examples:
  "toString 123 = ''123''" "toString (- 1001) = ''-1001''" "toString 100 = ''100''"
  "toString 456 = ''456''" "toString 5 = ''5''" "toString 102 = ''102''" "toString 101 = ''101''"
  by (simp_all add: toString_def digits_of.simps digit_char_def)

lemma example_env_simps:
  "MANAGEMENT_CHAT_ID example_env = Some ''-1001''" "USE_TOPICS example_env"
  "MANAGEMENT_CHAT_ID unconfigured_env = None" "\<not> USE_TOPICS unconfigured_env"
  by (simp_all add: example_env_def unconfigured_env_def MANAGEMENT_CHAT_ID_def USE_TOPICS_def
      or_str_def truthy_str_def)

lemma hello_msg_simps:
  "\<not> from_is_bot hello_msg" "chat_id hello_msg = 123" "display_name hello_msg = ''alice''"
  "text_of hello_msg = ''hello''" "messageText_of hello_msg = ''hello''"
  "chat_type hello_msg = ''private''"
  by (simp_all add: hello_msg_def from_is_bot_def alice_def display_name_def or_str_def
      truthy_str_def text_of_def messageText_of_def)

lemma plain_env_simps:
  "MANAGEMENT_CHAT_ID plain_env = Some ''-1001''" "\<not> USE_TOPICS plain_env"
  by (simp_all add: plain_env_def MANAGEMENT_CHAT_ID_def USE_TOPICS_def or_str_def truthy_str_def)

lemma after_hello_eq:
  "after_hello =
     \<lparr>pendingReplies = [(''123'', \<lparr>username = ''alice'', originalMessage = ''hello'',
                                   forwardedMessageId = 102, topicId = None\<rparr>)],
      forwardedMessageMap = [(''102'', ''123'')],
      userTopics = [], topicUsers = [], managementChatVerified = True,
      trace = [LogMessage ''telegram'' (Inbound hello_msg),
               SendMessage (Some ''-1001'') (Notice TestMessage) None None,
               SendMessage (Some ''-1001'') (Text ''*alice*: hello'') None None]\<rparr>"
proof -
  have c: "toString (chat_id hello_msg) \<noteq> ''-1001''"
    by (simp add: hello_msg_simps toString_examples)
  show ?thesis
    unfolding after_hello_def on_message_external [OF plain_env_simps(1) hello_msg_simps(1) c]
    by (simp add: invoke_def accepting_def forwardToManagement_def plain_env_simps truthy_str_def
        initial_state_def testManagementChat_def forwardToManagement_try_def send_and_store_def
        forward_call_def contextMessage_of_def hello_msg_simps toString_examples)
qed

lemma forward_hello:
  "forwardToManagement plain_env accepting logged_state hello_msg = after_hello"
proof -
  have c: "toString (chat_id hello_msg) \<noteq> ''-1001''"
    by (simp add: hello_msg_simps toString_examples)
  show ?thesis
    unfolding after_hello_def on_message_external [OF plain_env_simps(1) hello_msg_simps(1) c]
    by (simp add: invoke_def accepting_def logged_state_def initial_state_def)
qed

lemma reply_msg_simps:
  "reply_to_message reply_msg = Some 102" "text_of reply_msg = ''hi alice''"
  "message_thread_id reply_msg = None" "message_id reply_msg = 12"
  by (simp_all add: reply_msg_def text_of_def)





lemma dc_example_simps:
  "USE_THREADS dc_example_env" "MANAGEMENT_GUILD_ID dc_example_env = Some ''G''"
  "MANAGEMENT_CHANNEL_ID dc_example_env = Some ''C''"
  "map_of (userThreads dc_mapped_state) ''77'' = Some ''900''"
  "dc_trace dc_mapped_state = []"
  by (simp_all add: dc_example_env_def dc_mapped_state_def)

lemma link_msg_simps:
  "\<not> from_is_bot link_msg_1" "toString (chat_id link_msg_1) = ''-1001''"
  "\<not> from_is_bot link_msg_2" "toString (chat_id link_msg_2) = ''-1001''"
  by (simp_all add: link_msg_1_def link_msg_2_def from_is_bot_def operator_def toString_examples)

lemma on_message_link_1:
  "on_message example_env accepting st link_msg_1 =
     st\<lparr>userTopics := AList.update ''1'' 5 (userTopics st),
        topicUsers := AList.update 5 ''1'' (topicUsers st),
        trace := trace st @ [SendMessage (Some ''-1001'') (Notice (TopicLinked ''1'' 5)) None None]\<rparr>"
proof -
  have t: "text_of link_msg_1 = ''/link_topic 1 5''" "msg_text link_msg_1 = Some ''/link_topic 1 5''"
    "message_thread_id link_msg_1 = None" "reply_to_message link_msg_1 = None"
    by (simp_all add: link_msg_1_def text_of_def)
  have 1: "handleManagementReply example_env accepting st link_msg_1 = (Return False, st)"
    by (simp add: handleManagementReply_def topic_thread_message_def reply_to_forwarded_def
        legacy_reply_command_def t truthy_num_def match_legacy_def)
  have 2: "handleInfoCommand example_env accepting st link_msg_1 = (Return False, st)"
    by (simp add: handleInfoCommand_def t match_info_def)
  have 3: "match_link ''/link_topic 1 5'' = Some (''1'', ''5'')"
    by (simp add: match_link_def is_digit_def is_space_def)
  have 4: "parseInt ''5'' = 5"
    by (simp add: parseInt_def digit_val_def)
  have 5: "management_commands example_env accepting st link_msg_1 =
     st\<lparr>userTopics := AList.update ''1'' 5 (userTopics st),
        topicUsers := AList.update 5 ''1'' (topicUsers st),
        trace := trace st @ [SendMessage (Some ''-1001'') (Notice (TopicLinked ''1'' 5)) None None]\<rparr>"
    by (simp add: management_commands_def t 3 4 example_env_simps Let_def)
  show ?thesis
    by (simp add: on_message_def example_env_simps truthy_str_def link_msg_simps
        management_message_def 1 2 5)
qed

lemma on_message_link_2:
  "on_message example_env accepting st link_msg_2 =
     st\<lparr>userTopics := AList.update ''2'' 5 (userTopics st),
        topicUsers := AList.update 5 ''2'' (topicUsers st),
        trace := trace st @ [SendMessage (Some ''-1001'') (Notice (TopicLinked ''2'' 5)) None None]\<rparr>"
proof -
  have t: "text_of link_msg_2 = ''/link_topic 2 5''" "msg_text link_msg_2 = Some ''/link_topic 2 5''"
    "message_thread_id link_msg_2 = None" "reply_to_message link_msg_2 = None"
    by (simp_all add: link_msg_2_def text_of_def)
  have 1: "handleManagementReply example_env accepting st link_msg_2 = (Return False, st)"
    by (simp add: handleManagementReply_def topic_thread_message_def reply_to_forwarded_def
        legacy_reply_command_def t truthy_num_def match_legacy_def)
  have 2: "handleInfoCommand example_env accepting st link_msg_2 = (Return False, st)"
    by (simp add: handleInfoCommand_def t match_info_def)
  have 3: "match_link ''/link_topic 2 5'' = Some (''2'', ''5'')"
    by (simp add: match_link_def is_digit_def is_space_def)
  have 4: "parseInt ''5'' = 5"
    by (simp add: parseInt_def digit_val_def)
  have 5: "management_commands example_env accepting st link_msg_2 =
     st\<lparr>userTopics := AList.update ''2'' 5 (userTopics st),
        topicUsers := AList.update 5 ''2'' (topicUsers st),
        trace := trace st @ [SendMessage (Some ''-1001'') (Notice (TopicLinked ''2'' 5)) None None]\<rparr>"
    by (simp add: management_commands_def t 3 4 example_env_simps Let_def)
  show ?thesis
    by (simp add: on_message_def example_env_simps truthy_str_def link_msg_simps
        management_message_def 1 2 5)
qed



section \<open>C6: the legacy addressing pattern\<close>

lemma match_legacy_example:
  "match_legacy ''r123 hello there'' = Some (''123'', ''hello there'')"
  by (simp add: match_legacy_def is_digit_def is_space_def is_line_terminator_def)

text \<open>
  C6. An operator message with the text \<^verbatim>\<open>r123 hello there\<close>, that is no reply and was not
  typed in a topic thread with a user, is handled by the legacy command: the first call of
  the handler sends the body \<^verbatim>\<open>hello there\<close>, without the prefix, to the chat \<^verbatim>\<open>123\<close>.
\<close>

theorem legacy_pattern_resolves:
  assumes "msg_text msg = Some ''r123 hello there''"
    and "reply_to_message msg = None"
    and "\<not> in_mapped_topic e st msg"
  shows "prefix (trace st @ [SendMessage (Some ''123'') (Text ''hello there'') None None])
           (trace (snd (handleManagementReply e pf st msg)))
         \<and> fst (handleManagementReply e pf st msg) \<noteq> Return False"
proof -
  have t: "text_of msg = ''r123 hello there''"
    using assms(1) by (simp add: text_of_def)
  have 1: "topic_thread_message e pf st msg = (Next, st)"
    using assms(3) by (simp add: topic_thread_message_skip)
  have 2: "reply_to_forwarded e pf st msg = (Next, st)"
    using assms(2) by (simp add: reply_to_forwarded_skip truthy_num_def)
  have eq: "handleManagementReply e pf st msg = legacy_reply_command e pf st msg"
    by (simp add: handleManagementReply_def 1 2)
  have m: "match_legacy (text_of msg) = Some (''123'', ''hello there'')"
    by (simp only: t match_legacy_example)
  show ?thesis
    unfolding eq using legacy_reply_command_hit(2,3) [OF m] by simp
qed

theorem legacy_pattern_resolves_witness:
  "msg_text legacy_msg = Some ''r123 hello there'' \<and> reply_to_message legacy_msg = None
   \<and> \<not> in_mapped_topic example_env initial_state legacy_msg
   \<and> trace (snd (handleManagementReply example_env accepting initial_state legacy_msg)) =
       [SendMessage (Some ''123'') (Text ''hello there'') None None,
        LogMessage ''telegram'' (Outbound (Some ''123'') (Text ''hello there'') 100),
        SendMessage (Some ''-1001'') (Notice (LegacyReplySentTo ''user'' ''hello there'')) None None]
   \<and> fst (handleManagementReply example_env accepting initial_state legacy_msg) = Return True"
proof -
  have a: "msg_text legacy_msg = Some ''r123 hello there''" by (simp add: legacy_msg_def)
  have b: "reply_to_message legacy_msg = None" by (simp add: legacy_msg_def)
  have c: "\<not> in_mapped_topic example_env initial_state legacy_msg"
    by (simp add: in_mapped_topic_def legacy_msg_def truthy_num_def)
  note r = legacy_pattern_resolves [OF a b c, of accepting]
  have t: "text_of legacy_msg = ''r123 hello there''" by (simp add: text_of_def legacy_msg_def)
  have d: "handleManagementReply example_env accepting initial_state legacy_msg =
    (Return True, initial_state\<lparr>trace := [SendMessage (Some ''123'') (Text ''hello there'') None None,
        LogMessage ''telegram'' (Outbound (Some ''123'') (Text ''hello there'') 100),
        SendMessage (Some ''-1001'') (Notice (LegacyReplySentTo ''user'' ''hello there'')) None None]\<rparr>)"
    by (simp add: handleManagementReply_def topic_thread_message_def reply_to_forwarded_def
        legacy_reply_command_def text_of_def match_legacy_def is_digit_def is_space_def
        is_line_terminator_def deliver_def invoke_def accepting_def
        truthy_num_def initial_state_def pending_name_def example_env_def MANAGEMENT_CHAT_ID_def
        or_str_def truthy_str_def USE_TOPICS_def legacy_msg_def)
  show ?thesis using a b c r d by simp
qed

section \<open>C5: plain text typed in a user's topic\<close>

text \<open>
  C5. With topics on and the topic \<open>t\<close> mapped to the user \<open>u\<close>, an operator message typed
  in the topic \<open>t\<close> that is not a reply is decided by the first block of the reply handler,
  before the forwarded-message map is looked at and whatever that map holds: the first
  call sends the text to \<open>u\<close>. (A \<open>message_thread_id\<close> of 0 counts as no thread, an empty
  chat key as no user: JavaScript truthiness.)
\<close>

theorem topic_plain_text_resolves:
  assumes "USE_TOPICS e" and "message_thread_id msg = Some t" and "t \<noteq> 0"
    and "reply_to_message msg = None"
    and "map_of (topicUsers st) t = Some u" and "u \<noteq> []"
  shows "handleManagementReply e pf st msg = topic_thread_message e pf st msg
     \<and> prefix (trace st @ [SendMessage (Some u) (Text (text_of msg)) None None])
          (trace (snd (handleManagementReply e pf st msg)))
     \<and> fst (handleManagementReply e pf st msg) \<noteq> Return False"
proof -
  note h = topic_thread_message_hit [OF assms, of pf]
  have eq: "handleManagementReply e pf st msg = topic_thread_message e pf st msg"
    using h(1) by (cases "topic_thread_message e pf st msg")
      (auto simp: handleManagementReply_def split: flow.splits)
  show ?thesis
    unfolding eq using h(2,4) by simp
qed

theorem topic_plain_text_resolves_witness:
  "USE_TOPICS example_env \<and> message_thread_id topic_msg = Some 5 \<and> (5::int) \<noteq> 0
   \<and> reply_to_message topic_msg = None
   \<and> map_of (topicUsers mapped_state) 5 = Some ''456'' \<and> ''456'' \<noteq> []
   \<and> prefix (trace mapped_state @ [SendMessage (Some ''456'') (Text (text_of topic_msg)) None None])
        (trace (snd (handleManagementReply example_env accepting mapped_state topic_msg)))
   \<and> handleManagementReply example_env accepting mapped_state topic_msg =
       (Return True,
        mapped_state\<lparr>trace :=
          [SendMessage (Some ''456'') (Text ''hi'') None None,
           LogMessage ''telegram'' (Outbound (Some ''456'') (Text ''hi'') 100),
           SendMessage (Some ''-1001'') (Notice (MessageSentTo ''user'')) (Some 5) (Some 11)]\<rparr>)"
proof -
  have a: "USE_TOPICS example_env" by (rule example_env_simps)
  have b: "message_thread_id topic_msg = Some 5" by (simp add: topic_msg_def)
  have c: "(5::int) \<noteq> 0" by simp
  have d: "reply_to_message topic_msg = None" by (simp add: topic_msg_def)
  have f: "map_of (topicUsers mapped_state) 5 = Some ''456''" by (simp add: mapped_state_def)
  have g: "''456'' \<noteq> []" by simp
  note r = topic_plain_text_resolves [OF a b c d f g, of accepting]
  have v: "handleManagementReply example_env accepting mapped_state topic_msg =
       (Return True,
        mapped_state\<lparr>trace :=
          [SendMessage (Some ''456'') (Text ''hi'') None None,
           LogMessage ''telegram'' (Outbound (Some ''456'') (Text ''hi'') 100),
           SendMessage (Some ''-1001'') (Notice (MessageSentTo ''user'')) (Some 5) (Some 11)]\<rparr>)"
    by (simp add: handleManagementReply_def topic_thread_message_def example_env_simps
        truthy_num_def topic_msg_def mapped_state_def verified_state_def initial_state_def
        deliver_def invoke_def accepting_def text_of_def pending_name_def)
  from r have p: "prefix (trace mapped_state @ [SendMessage (Some ''456'') (Text (text_of topic_msg)) None None])
        (trace (snd (handleManagementReply example_env accepting mapped_state topic_msg)))"
    by (rule conjunct1 [OF conjunct2])
  show ?thesis using a b c d f g p v by blast
qed

section \<open>C7: the record precedes the forwarding\<close>

text \<open>
  C7. With the management chat configured, for a message that is not from a bot and not
  from the management chat, the first call of the handler is the record of the message in
  the persistence collaborator, and it stays in the trace whatever the platform answers to
  the calls of the forwarding that follow (a rejected send is caught by
  \<open>forwardToManagement\<close>).
\<close>

theorem logging_precedes_forwarding:
  assumes "MANAGEMENT_CHAT_ID e = Some m" and "\<not> from_is_bot msg" and "toString (chat_id msg) \<noteq> m"
  shows "prefix (trace st @ [LogMessage ''telegram'' (Inbound msg)]) (trace (on_message e pf st msg))"
proof -
  let ?st1 = "st\<lparr>trace := trace st @ [LogMessage ''telegram'' (Inbound msg)]\<rparr>"
  have "prefix (trace ?st1) (trace (forwardToManagement e pf ?st1 msg))"
    by (rule forwardToManagement_frame)
  then show ?thesis
    unfolding on_message_external [OF assms]
    by (auto simp: invoke_def split: sum.splits)
qed

theorem logging_precedes_forwarding_witness:
  "MANAGEMENT_CHAT_ID example_env = Some ''-1001'' \<and> \<not> from_is_bot hello_msg
   \<and> toString (chat_id hello_msg) \<noteq> ''-1001''
   \<and> prefix (trace verified_state @ [LogMessage ''telegram'' (Inbound hello_msg)])
        (trace (on_message example_env rejecting verified_state hello_msg))
   \<and> on_message example_env rejecting verified_state hello_msg =
       verified_state\<lparr>trace :=
         [LogMessage ''telegram'' (Inbound hello_msg),
          CreateForumTopic (Some ''-1001'') ''alice (123)'',
          SendMessage (Some ''-1001'') (Text ''*alice*: hello'') None None]\<rparr>"
proof -
  have a: "MANAGEMENT_CHAT_ID example_env = Some ''-1001''" by (rule example_env_simps)
  have b: "\<not> from_is_bot hello_msg" by (rule hello_msg_simps)
  have c: "toString (chat_id hello_msg) \<noteq> ''-1001''" by (simp add: hello_msg_simps toString_examples)
  note r = logging_precedes_forwarding [OF a b c, of verified_state rejecting]
  have v: "on_message example_env rejecting verified_state hello_msg =
       verified_state\<lparr>trace :=
         [LogMessage ''telegram'' (Inbound hello_msg),
          CreateForumTopic (Some ''-1001'') ''alice (123)'',
          SendMessage (Some ''-1001'') (Text ''*alice*: hello'') None None]\<rparr>"
    unfolding on_message_external [OF a b c]
    by (simp add: invoke_def rejecting_def forwardToManagement_def example_env_simps truthy_str_def
        verified_state_def initial_state_def forwardToManagement_try_def getOrCreateUserTopic_def
        hello_msg_simps toString_examples getOrCreateUserTopic_catch_def send_and_store_def
        forward_call_def contextMessage_of_def truthy_num_def topicName_def)
  show ?thesis using a b c r v by blast
qed


section \<open>C8: no record in set-up mode\<close>

text \<open>
  C8, as stated, fails: without a management chat the handler answers a user's message
  with the set-up notice and returns; neither it nor the two command handlers call the
  persistence collaborator for the text \<^verbatim>\<open>hello\<close>.
\<close>

theorem setup_mode_records_nothing:
  "trace (tg_run unconfigured_env accepting initial_state
            [OnMessage hello_msg, OnStart hello_msg, OnHelp hello_msg]) =
     [SendMessage (Some ''123'') (Notice (SetupMessage ''123'' False)) None None]
   \<and> LogMessage ''telegram'' (Inbound hello_msg) \<notin>
       set (trace (tg_run unconfigured_env accepting initial_state
                     [OnMessage hello_msg, OnStart hello_msg, OnHelp hello_msg]))"
proof -
  have 1: "on_message unconfigured_env accepting initial_state hello_msg =
      initial_state\<lparr>trace := [SendMessage (Some ''123'') (Notice (SetupMessage ''123'' False)) None None]\<rparr>"
    unfolding on_message_setup [OF example_env_simps(3) hello_msg_simps(1)]
    by (simp add: hello_msg_simps toString_examples initial_state_def)
  have 2: "\<And>st. on_start unconfigured_env accepting st hello_msg = st"
    by (simp add: on_start_def hello_msg_simps)
  have 3: "\<And>st. on_help unconfigured_env accepting st hello_msg = st"
    by (simp add: on_help_def hello_msg_simps)
  show ?thesis
    by (simp add: tg_run_def 1 2 3)
qed

text \<open>
  C8, amended. For a message that is not from a bot: with the management chat configured
  and the message from another chat, the first call of the handler is the record of the
  message; with no management chat configured the handler's only call is the set-up
  notice to the sender, and nothing is recorded.
\<close>

theorem record_call_when_configured:
  assumes "\<not> from_is_bot msg"
  shows "(MANAGEMENT_CHAT_ID e = Some m \<and> toString (chat_id msg) \<noteq> m \<longrightarrow>
           prefix (trace st @ [LogMessage ''telegram'' (Inbound msg)])
             (trace (on_message e pf st msg)))
       \<and> (MANAGEMENT_CHAT_ID e = None \<longrightarrow>
           trace (on_message e pf st msg) =
             trace st @ [SendMessage (Some (toString (chat_id msg)))
               (Notice (SetupMessage (toString (chat_id msg))
                  (chat_type msg = ''group'' \<or> chat_type msg = ''supergroup''))) None None])"
proof (intro conjI impI)
  let ?st1 = "st\<lparr>trace := trace st @ [LogMessage ''telegram'' (Inbound msg)]\<rparr>"
  assume c: "MANAGEMENT_CHAT_ID e = Some m \<and> toString (chat_id msg) \<noteq> m"
  have "prefix (trace ?st1) (trace (forwardToManagement e pf ?st1 msg))"
    by (rule forwardToManagement_frame)
  then show "prefix (trace st @ [LogMessage ''telegram'' (Inbound msg)])
             (trace (on_message e pf st msg))"
    using c assms by (auto simp: on_message_external invoke_def split: sum.splits)
next
  assume "MANAGEMENT_CHAT_ID e = None"
  then show "trace (on_message e pf st msg) =
             trace st @ [SendMessage (Some (toString (chat_id msg)))
               (Notice (SetupMessage (toString (chat_id msg))
                  (chat_type msg = ''group'' \<or> chat_type msg = ''supergroup''))) None None]"
    using on_message_setup [where e = e and msg = msg and pf = pf and st = st] assms by simp
qed

theorem record_call_when_configured_witness:
  "\<not> from_is_bot hello_msg
   \<and> MANAGEMENT_CHAT_ID example_env = Some ''-1001'' \<and> toString (chat_id hello_msg) \<noteq> ''-1001''
   \<and> prefix (trace initial_state @ [LogMessage ''telegram'' (Inbound hello_msg)])
        (trace (on_message example_env accepting initial_state hello_msg))
   \<and> MANAGEMENT_CHAT_ID unconfigured_env = None
   \<and> trace (on_message unconfigured_env accepting initial_state hello_msg) =
        trace initial_state @ [SendMessage (Some ''123'') (Notice (SetupMessage ''123'' False)) None None]"
proof -
  have a: "\<not> from_is_bot hello_msg" by (rule hello_msg_simps)
  have b: "MANAGEMENT_CHAT_ID example_env = Some ''-1001''" by (rule example_env_simps)
  have c: "toString (chat_id hello_msg) \<noteq> ''-1001''" by (simp add: hello_msg_simps toString_examples)
  have d: "MANAGEMENT_CHAT_ID unconfigured_env = None" by (rule example_env_simps)
  have p: "prefix (trace initial_state @ [LogMessage ''telegram'' (Inbound hello_msg)])
        (trace (on_message example_env accepting initial_state hello_msg))"
    using record_call_when_configured [OF a, where e = example_env and m = "''-1001''"
        and st = initial_state and pf = accepting] b c
    by blast
  have q: "trace (on_message unconfigured_env accepting initial_state hello_msg) =
        trace initial_state @ [SendMessage (Some ''123'') (Notice (SetupMessage ''123'' False)) None None]"
    using record_call_when_configured [OF a, where e = unconfigured_env and m = "''-1001''"
        and st = initial_state and pf = accepting] d
    by (simp add: hello_msg_simps toString_examples)
  show ?thesis using a b c d p q by blast
qed

section \<open>C9: the forwarded-message map only grows\<close>

text \<open>
  C9. No operation of the Telegram engine removes an entry of the forwarded-message map:
  a key that is mapped stays mapped through any run of handlers, under any platform.
  After one operation the entry is as it was, unless that operation forwarded a message
  to which the platform gave the very same message id again, and then the entry names
  the sender of that message.
\<close>

theorem index_entries_persist:
  assumes "map_of (forwardedMessageMap st) k = Some v"
  shows "(\<exists>v'. map_of (forwardedMessageMap (tg_run e pf st evs)) k = Some v')
     \<and> (map_of (forwardedMessageMap (tg_step e pf st ev)) k = Some v
        \<or> (\<exists>m. ev = OnMessage m
              \<and> map_of (forwardedMessageMap (tg_step e pf st ev)) k = Some (toString (chat_id m))))"
proof
  have step: "\<exists>v'. map_of (forwardedMessageMap (tg_step e pf s x)) k = Some v'"
    if "map_of (forwardedMessageMap s) k = Some w" for s x w
    using tg_step_index [of e pf s x] that by (auto simp: update_conv')
  show "\<exists>v'. map_of (forwardedMessageMap (tg_run e pf st evs)) k = Some v'"
    using assms
  proof (induction evs arbitrary: st v)
    case Nil
    then show ?case by (simp add: tg_run_def)
  next
    case (Cons x xs)
    from step [OF Cons.prems] obtain w where "map_of (forwardedMessageMap (tg_step e pf st x)) k = Some w"
      by blast
    from Cons.IH [OF this] show ?case
      by (simp add: tg_run_def)
  qed
  show "map_of (forwardedMessageMap (tg_step e pf st ev)) k = Some v
        \<or> (\<exists>m. ev = OnMessage m
              \<and> map_of (forwardedMessageMap (tg_step e pf st ev)) k = Some (toString (chat_id m)))"
    using tg_step_index [of e pf st ev] assms by (auto simp: update_conv')
qed


theorem index_entries_persist_witness:
  "map_of (forwardedMessageMap after_hello) ''102'' = Some ''123''
   \<and> (\<exists>v'. map_of (forwardedMessageMap
          (tg_run plain_env rejecting after_hello [OnMessage reply_msg, OnMessage hello_msg, StartupTest]))
          ''102'' = Some v')
   \<and> (map_of (forwardedMessageMap (tg_step plain_env rejecting after_hello (OnMessage reply_msg)))
          ''102'' = Some ''123''
        \<or> (\<exists>m. OnMessage reply_msg = OnMessage m
              \<and> map_of (forwardedMessageMap (tg_step plain_env rejecting after_hello (OnMessage reply_msg)))
                   ''102'' = Some (toString (chat_id m))))"
proof -
  have a: "map_of (forwardedMessageMap after_hello) ''102'' = Some ''123''"
    by (simp add: after_hello_eq)
  show ?thesis
    using a index_entries_persist [OF a, of plain_env rejecting
        "[OnMessage reply_msg, OnMessage hello_msg, StartupTest]" "OnMessage reply_msg"]
    by blast
qed

section \<open>C4: a reply to a forwarded message reaches its sender\<close>

text \<open>
  C4. When \<open>forwardToManagement\<close> has forwarded a message \<open>m\<close> (its last call is the
  send of the text to the management chat, made in this invocation, and the platform
  answered with the message id \<open>f\<close>), the forwarded-message map holds \<open>f\<close> for the chat of
  \<open>m\<close>. In every later state that still holds this entry, under any configuration and
  platform, an operator message that replies to \<open>f\<close> is sent to the chat of \<open>m\<close>,
  wherever it was typed. (A message id of 0 counts as no reply: JavaScript truthiness.)
\<close>

theorem forwarded_reply_resolves:
  assumes "trace (forwardToManagement e pf st m) = tr @ [SendMessage ch (Text b) th rp]"
    and "length (trace st) \<le> length tr"
    and "pf (length tr) (SendMessage ch (Text b) th rp) = Inr f"
    and "f \<noteq> 0"
    and "reply_to_message r = Some f"
  shows "map_of (forwardedMessageMap (forwardToManagement e pf st m)) (toString f) =
           Some (toString (chat_id m))
     \<and> (\<forall>st2. map_of (forwardedMessageMap st2) (toString f) = Some (toString (chat_id m)) \<longrightarrow>
           prefix (trace st2 @ [SendMessage (Some (toString (chat_id m))) (Text (text_of r)) None None])
             (trace (snd (handleManagementReply e2 pf2 st2 r))))"
proof
  let ?st' = "forwardToManagement e pf st m"
  consider "trace ?st' = trace st"
    | "trace ?st' = trace st @ [SendMessage (MANAGEMENT_CHAT_ID e) (Notice TestMessage) None None]"
    | tid st1 where "prefix (trace st) (trace st1)" "?st' = send_and_store e pf st1 m tid"
    using forwardToManagement_form [of e pf st m] by blast
  then show "map_of (forwardedMessageMap ?st') (toString f) = Some (toString (chat_id m))"
  proof cases
    case 1
    with assms(1,2) show ?thesis by simp
  next
    case 2
    with assms(1) show ?thesis by simp
  next
    case 3
    have "trace ?st' = trace st1 @ [forward_call e m tid]"
      by (simp add: 3(2) send_and_store_trace)
    with assms(1) have "tr = trace st1" "forward_call e m tid = SendMessage ch (Text b) th rp"
      by simp_all
    with assms(3) have "pf (length (trace st1)) (forward_call e m tid) = Inr f"
      by simp
    then show ?thesis
      by (simp add: 3(2) send_and_store_success)
  qed
  show "\<forall>st2. map_of (forwardedMessageMap st2) (toString f) = Some (toString (chat_id m)) \<longrightarrow>
           prefix (trace st2 @ [SendMessage (Some (toString (chat_id m))) (Text (text_of r)) None None])
             (trace (snd (handleManagementReply e2 pf2 st2 r)))"
    using reply_resolves [OF assms(5,4) _ toString_nonempty] by blast
qed


theorem forwarded_reply_resolves_witness:
  "trace (forwardToManagement plain_env accepting logged_state hello_msg) =
     [LogMessage ''telegram'' (Inbound hello_msg),
      SendMessage (Some ''-1001'') (Notice TestMessage) None None]
     @ [SendMessage (Some ''-1001'') (Text ''*alice*: hello'') None None]
   \<and> length (trace logged_state) \<le>
       length [LogMessage ''telegram'' (Inbound hello_msg),
               SendMessage (Some ''-1001'') (Notice TestMessage) None None]
   \<and> accepting 2 (SendMessage (Some ''-1001'') (Text ''*alice*: hello'') None None) = Inr 102
   \<and> (102::int) \<noteq> 0 \<and> reply_to_message reply_msg = Some 102
   \<and> map_of (forwardedMessageMap (forwardToManagement plain_env accepting logged_state hello_msg))
        (toString 102) = Some (toString (chat_id hello_msg))
   \<and> prefix (trace after_hello @ [SendMessage (Some ''123'') (Text ''hi alice'') None None])
        (trace (snd (handleManagementReply example_env rejecting after_hello reply_msg)))"
proof -
  have a: "trace (forwardToManagement plain_env accepting logged_state hello_msg) =
     [LogMessage ''telegram'' (Inbound hello_msg),
      SendMessage (Some ''-1001'') (Notice TestMessage) None None]
     @ [SendMessage (Some ''-1001'') (Text ''*alice*: hello'') None None]"
    by (simp add: forward_hello after_hello_eq)
  have b: "length (trace logged_state) \<le>
       length [LogMessage ''telegram'' (Inbound hello_msg),
               SendMessage (Some ''-1001'') (Notice TestMessage) None None]"
    by (simp add: logged_state_def)
  have c: "accepting (length [LogMessage ''telegram'' (Inbound hello_msg),
               SendMessage (Some ''-1001'') (Notice TestMessage) None None])
             (SendMessage (Some ''-1001'') (Text ''*alice*: hello'') None None) = Inr 102"
    by (simp add: accepting_def)
  have d: "(102::int) \<noteq> 0" by simp
  have f: "reply_to_message reply_msg = Some 102" by (rule reply_msg_simps)
  note r = forwarded_reply_resolves [OF a b c d f, of example_env rejecting]
  have i: "map_of (forwardedMessageMap after_hello) (toString 102) = Some (toString (chat_id hello_msg))"
    by (simp add: after_hello_eq toString_examples hello_msg_simps)
  from r i have p: "prefix (trace after_hello @ [SendMessage (Some (toString (chat_id hello_msg)))
        (Text (text_of reply_msg)) None None])
        (trace (snd (handleManagementReply example_env rejecting after_hello reply_msg)))"
    by blast
  have c': "accepting 2 (SendMessage (Some ''-1001'') (Text ''*alice*: hello'') None None) = Inr 102"
    by (simp add: accepting_def)
  from p have p': "prefix (trace after_hello @ [SendMessage (Some ''123'') (Text ''hi alice'') None None])
        (trace (snd (handleManagementReply example_env rejecting after_hello reply_msg)))"
    by (simp add: hello_msg_simps toString_examples reply_msg_simps)
  from r have q: "map_of (forwardedMessageMap (forwardToManagement plain_env accepting logged_state hello_msg))
        (toString 102) = Some (toString (chat_id hello_msg))"
    by blast
  show ?thesis using a b c' d f q p' by blast
qed

section \<open>C3: a cached unit is verified on Discord only\<close>

text \<open>
  C3, as stated, fails for the Telegram engine: a cached topic is returned as it is, with
  no call to the platform and no eviction, even on a platform that would reject every
  call.
\<close>

theorem telegram_cached_topic_not_verified:
  "getOrCreateUserTopic example_env rejecting mapped_state 456 ''bob'' = (Some 5, mapped_state)
   \<and> trace (snd (getOrCreateUserTopic example_env rejecting mapped_state 456 ''bob'')) = []
   \<and> map_of (userTopics (snd (getOrCreateUserTopic example_env rejecting mapped_state 456 ''bob'')))
        ''456'' = Some 5
   \<and> map_of (topicUsers (snd (getOrCreateUserTopic example_env rejecting mapped_state 456 ''bob'')))
        5 = Some ''456''"
proof -
  have m: "map_of (userTopics mapped_state) (toString 456) = Some 5"
    by (simp add: mapped_state_def toString_examples)
  have "getOrCreateUserTopic example_env rejecting mapped_state 456 ''bob'' = (Some 5, mapped_state)"
    by (rule getOrCreateUserTopic_cached [OF example_env_simps(2) m])
  then show ?thesis
    by (simp add: mapped_state_def verified_state_def initial_state_def)
qed

text \<open>
  C3, amended. For an identity with a cached unit: the Discord engine fetches the guild
  and the cached thread; when both are found it returns the thread, makes no other call
  and creates nothing; when the guild is not found or the fetch of the thread is rejected
  it has deleted both directions of the mapping before it goes on to create a thread.
  The Telegram engine returns the cached topic without any call and leaves the state as
  it is.
\<close>

theorem cached_unit_verified_or_evicted:
  assumes "USE_THREADS e" and "map_of (userThreads st) uid = Some tid"
    and "USE_TOPICS te" and "map_of (userTopics ts) (toString c) = Some tt"
  shows "(\<forall>g. pf (length (dc_trace st)) (GuildsFetch (MANAGEMENT_GUILD_ID e)) = Object g
             \<and> pf (length (dc_trace st) + 1) (ChannelsFetch g (Some tid)) = Object tid \<longrightarrow>
           getOrCreateUserThread e pf st uid un =
             (Some tid, st\<lparr>dc_trace := dc_trace st @
                [GuildsFetch (MANAGEMENT_GUILD_ID e), ChannelsFetch g (Some tid)]\<rparr>))
     \<and> ((\<forall>g. pf (length (dc_trace st)) (GuildsFetch (MANAGEMENT_GUILD_ID e)) \<noteq> Object g)
          \<or> (\<exists>g err. pf (length (dc_trace st)) (GuildsFetch (MANAGEMENT_GUILD_ID e)) = Object g
                \<and> pf (length (dc_trace st) + 1) (ChannelsFetch g (Some tid)) = Rejected err) \<longrightarrow>
           map_of (userThreads (snd (verify_cached_thread e pf st uid))) uid = None
           \<and> map_of (threadUsers (snd (verify_cached_thread e pf st uid))) tid = None
           \<and> getOrCreateUserThread e pf st uid un =
               create_user_thread e pf (snd (verify_cached_thread e pf st uid)) uid un)
     \<and> getOrCreateUserTopic te tpf ts c tn = (Some tt, ts)"
proof (intro conjI allI impI)
  fix g
  assume "pf (length (dc_trace st)) (GuildsFetch (MANAGEMENT_GUILD_ID e)) = Object g
             \<and> pf (length (dc_trace st) + 1) (ChannelsFetch g (Some tid)) = Object tid"
  then show "getOrCreateUserThread e pf st uid un =
             (Some tid, st\<lparr>dc_trace := dc_trace st @
                [GuildsFetch (MANAGEMENT_GUILD_ID e), ChannelsFetch g (Some tid)]\<rparr>)"
    using assms(1) verify_cached_thread_live [OF assms(2), of pf e g tid]
    by (simp add: getOrCreateUserThread_def)
next
  assume s: "(\<forall>g. pf (length (dc_trace st)) (GuildsFetch (MANAGEMENT_GUILD_ID e)) \<noteq> Object g)
          \<or> (\<exists>g err. pf (length (dc_trace st)) (GuildsFetch (MANAGEMENT_GUILD_ID e)) = Object g
                \<and> pf (length (dc_trace st) + 1) (ChannelsFetch g (Some tid)) = Rejected err)"
  note v = verify_cached_thread_stale [OF assms(2) s]
  show "map_of (userThreads (snd (verify_cached_thread e pf st uid))) uid = None"
    by (simp add: v(2) delete_conv')
  show "map_of (threadUsers (snd (verify_cached_thread e pf st uid))) tid = None"
    by (simp add: v(3) delete_conv')
  show "getOrCreateUserThread e pf st uid un =
               create_user_thread e pf (snd (verify_cached_thread e pf st uid)) uid un"
    using assms(1) v(1) by (cases "verify_cached_thread e pf st uid")
      (simp add: getOrCreateUserThread_def)
next
  show "getOrCreateUserTopic te tpf ts c tn = (Some tt, ts)"
    by (rule getOrCreateUserTopic_cached [OF assms(3,4)])
qed


theorem cached_unit_verified_or_evicted_witness:
  "USE_THREADS dc_example_env \<and> map_of (userThreads dc_mapped_state) ''77'' = Some ''900''
   \<and> USE_TOPICS example_env \<and> map_of (userTopics mapped_state) (toString 456) = Some 5
   \<and> dc_finding (length (dc_trace dc_mapped_state)) (GuildsFetch (MANAGEMENT_GUILD_ID dc_example_env)) =
       Object ''G''
   \<and> dc_finding (length (dc_trace dc_mapped_state) + 1) (ChannelsFetch ''G'' (Some ''900'')) =
       Object ''900''
   \<and> getOrCreateUserThread dc_example_env dc_finding dc_mapped_state ''77'' ''zed'' =
       (Some ''900'', dc_mapped_state\<lparr>dc_trace :=
          [GuildsFetch (Some ''G''), ChannelsFetch ''G'' (Some ''900'')]\<rparr>)
   \<and> dc_thread_gone (length (dc_trace dc_mapped_state)) (GuildsFetch (MANAGEMENT_GUILD_ID dc_example_env)) =
       Object ''G''
   \<and> dc_thread_gone (length (dc_trace dc_mapped_state) + 1) (ChannelsFetch ''G'' (Some ''900'')) =
       Rejected ''Unknown Channel''
   \<and> map_of (userThreads (snd (verify_cached_thread dc_example_env dc_thread_gone dc_mapped_state ''77'')))
        ''77'' = None
   \<and> map_of (threadUsers (snd (verify_cached_thread dc_example_env dc_thread_gone dc_mapped_state ''77'')))
        ''900'' = None
   \<and> getOrCreateUserThread dc_example_env dc_thread_gone dc_mapped_state ''77'' ''zed'' =
       (Some ''901'',
        \<lparr>userThreads = [(''77'', ''901'')], threadUsers = [(''901'', ''77'')],
         dc_trace = [GuildsFetch (Some ''G''), ChannelsFetch ''G'' (Some ''900''),
                     GuildsFetch (Some ''G''), ChannelsFetch ''G'' (Some ''C''),
                     ThreadsCreate ''C'' ''zed (77)'',
                     ThreadSend ''901'' (NewConversation ''zed'' ''77'')]\<rparr>)
   \<and> getOrCreateUserTopic example_env rejecting mapped_state 456 ''bob'' = (Some 5, mapped_state)"
proof -
  have a: "USE_THREADS dc_example_env" by (rule dc_example_simps)
  have b: "map_of (userThreads dc_mapped_state) ''77'' = Some ''900''" by (rule dc_example_simps)
  have c: "USE_TOPICS example_env" by (rule example_env_simps)
  have d: "map_of (userTopics mapped_state) (toString 456) = Some 5"
    by (simp add: mapped_state_def toString_examples)
  have f1: "dc_finding (length (dc_trace dc_mapped_state)) (GuildsFetch (MANAGEMENT_GUILD_ID dc_example_env)) =
       Object ''G''"
    by (simp add: dc_finding_def)
  have f2: "dc_finding (length (dc_trace dc_mapped_state) + 1) (ChannelsFetch ''G'' (Some ''900'')) =
       Object ''900''"
    by (simp add: dc_finding_def)
  have g1: "dc_thread_gone (length (dc_trace dc_mapped_state)) (GuildsFetch (MANAGEMENT_GUILD_ID dc_example_env)) =
       Object ''G''"
    by (simp add: dc_thread_gone_def)
  have g2: "dc_thread_gone (length (dc_trace dc_mapped_state) + 1) (ChannelsFetch ''G'' (Some ''900'')) =
       Rejected ''Unknown Channel''"
    by (simp add: dc_thread_gone_def)
  note r1 = cached_unit_verified_or_evicted [OF a b c d, where pf = dc_finding and un = "''zed''"
      and tpf = rejecting and tn = "''bob''"]
  note r2 = cached_unit_verified_or_evicted [OF a b c d, where pf = dc_thread_gone and un = "''zed''"
      and tpf = rejecting and tn = "''bob''"]
  from r1 f1 f2 have 1: "getOrCreateUserThread dc_example_env dc_finding dc_mapped_state ''77'' ''zed'' =
       (Some ''900'', dc_mapped_state\<lparr>dc_trace := dc_trace dc_mapped_state @
          [GuildsFetch (MANAGEMENT_GUILD_ID dc_example_env), ChannelsFetch ''G'' (Some ''900'')]\<rparr>)"
    by blast
  then have one: "getOrCreateUserThread dc_example_env dc_finding dc_mapped_state ''77'' ''zed'' =
       (Some ''900'', dc_mapped_state\<lparr>dc_trace :=
          [GuildsFetch (Some ''G''), ChannelsFetch ''G'' (Some ''900'')]\<rparr>)"
    by (simp add: dc_example_simps)
  from r2 g1 g2 have 2: "map_of (userThreads (snd (verify_cached_thread dc_example_env dc_thread_gone dc_mapped_state ''77'')))
        ''77'' = None
     \<and> map_of (threadUsers (snd (verify_cached_thread dc_example_env dc_thread_gone dc_mapped_state ''77'')))
        ''900'' = None
     \<and> getOrCreateUserThread dc_example_env dc_thread_gone dc_mapped_state ''77'' ''zed'' =
        create_user_thread dc_example_env dc_thread_gone
          (snd (verify_cached_thread dc_example_env dc_thread_gone dc_mapped_state ''77'')) ''77'' ''zed''"
    by blast
  have 3: "create_user_thread dc_example_env dc_thread_gone
          (snd (verify_cached_thread dc_example_env dc_thread_gone dc_mapped_state ''77'')) ''77'' ''zed'' =
       (Some ''901'',
        \<lparr>userThreads = [(''77'', ''901'')], threadUsers = [(''901'', ''77'')],
         dc_trace = [GuildsFetch (Some ''G''), ChannelsFetch ''G'' (Some ''900''),
                     GuildsFetch (Some ''G''), ChannelsFetch ''G'' (Some ''C''),
                     ThreadsCreate ''C'' ''zed (77)'',
                     ThreadSend ''901'' (NewConversation ''zed'' ''77'')]\<rparr>)"
    by (simp add: verify_cached_thread_def create_user_thread_def dc_invoke_def dc_thread_gone_def
        dc_mapped_state_def dc_example_env_def evict_def)
  from r1 have 4: "getOrCreateUserTopic example_env rejecting mapped_state 456 ''bob'' = (Some 5, mapped_state)"
    by blast
  show ?thesis
    using a b c d f1 f2 one g1 g2 2 3 4 by simp
qed

section \<open>C1: the two tables are written together\<close>

text \<open>
  C1, as stated, fails: \<^verbatim>\<open>/link_topic\<close> writes its pair without looking at the entries
  that are there. After the topic 5 has been linked to the user 1 and then to the user 2,
  the forward table still gives the topic 5 for the user 1, and the reverse table gives
  the user 2 for the topic 5.
\<close>

theorem relink_breaks_agreement:
  "tables_agree (tg_run example_env accepting initial_state [OnMessage link_msg_1])
   \<and> userTopics (tg_run example_env accepting initial_state [OnMessage link_msg_1, OnMessage link_msg_2])
       = [(''1'', 5), (''2'', 5)]
   \<and> topicUsers (tg_run example_env accepting initial_state [OnMessage link_msg_1, OnMessage link_msg_2])
       = [(5, ''2'')]
   \<and> \<not> tables_agree
         (tg_run example_env accepting initial_state [OnMessage link_msg_1, OnMessage link_msg_2])"
  by (simp add: tg_run_def on_message_link_1 on_message_link_2 initial_state_def tables_agree_def
      agree_def)


text \<open>
  C1, amended. No operation writes one table without the other. An operation of the
  Telegram engine leaves both tables alone or writes one pair to both (\<open>i \<mapsto> u\<close> forward,
  \<open>u \<mapsto> i\<close> reverse); on Discord the check of a cached thread leaves both alone or
  deletes the pair from both, and the creation leaves both alone or writes one pair to
  both. Agreement of the tables (every forward entry has its mirror image in the reverse
  table) is kept by every operation in which no identity gets a unit that another
  identity had before.
\<close>

theorem tables_written_together:
  "((userTopics (tg_step e pf st ev) = userTopics st \<and> topicUsers (tg_step e pf st ev) = topicUsers st)
     \<or> (\<exists>i u. userTopics (tg_step e pf st ev) = AList.update i u (userTopics st)
             \<and> topicUsers (tg_step e pf st ev) = AList.update u i (topicUsers st)))
   \<and> (tables_agree st
        \<and> (\<forall>i u j. map_of (userTopics (tg_step e pf st ev)) i = Some u
              \<and> map_of (userTopics st) i \<noteq> Some u \<and> map_of (userTopics st) j = Some u \<longrightarrow> j = i)
       \<longrightarrow> tables_agree (tg_step e pf st ev))
   \<and> ((userThreads (snd (verify_cached_thread de dpf ds uid)) = userThreads ds
          \<and> threadUsers (snd (verify_cached_thread de dpf ds uid)) = threadUsers ds)
       \<or> (\<exists>t. map_of (userThreads ds) uid = Some t
             \<and> userThreads (snd (verify_cached_thread de dpf ds uid)) = AList.delete uid (userThreads ds)
             \<and> threadUsers (snd (verify_cached_thread de dpf ds uid)) = AList.delete t (threadUsers ds)))
   \<and> ((userThreads (snd (create_user_thread de dpf ds uid un)) = userThreads ds
          \<and> threadUsers (snd (create_user_thread de dpf ds uid un)) = threadUsers ds)
       \<or> (\<exists>t. userThreads (snd (create_user_thread de dpf ds uid un)) = AList.update uid t (userThreads ds)
             \<and> threadUsers (snd (create_user_thread de dpf ds uid un)) = AList.update t uid (threadUsers ds)))
   \<and> (threads_agree ds
        \<and> (\<forall>t j. map_of (userThreads (snd (getOrCreateUserThread de dpf ds uid un))) uid = Some t
              \<and> map_of (userThreads ds) uid \<noteq> Some t \<and> map_of (userThreads ds) j = Some t \<longrightarrow> j = uid)
       \<longrightarrow> threads_agree (snd (getOrCreateUserThread de dpf ds uid un)))"
proof (intro conjI impI)
  show "(userTopics (tg_step e pf st ev) = userTopics st \<and> topicUsers (tg_step e pf st ev) = topicUsers st)
     \<or> (\<exists>i u. userTopics (tg_step e pf st ev) = AList.update i u (userTopics st)
             \<and> topicUsers (tg_step e pf st ev) = AList.update u i (topicUsers st))"
    by (rule tables_written_cases [OF tg_step_tables])
next
  assume "tables_agree st
        \<and> (\<forall>i u j. map_of (userTopics (tg_step e pf st ev)) i = Some u
              \<and> map_of (userTopics st) i \<noteq> Some u \<and> map_of (userTopics st) j = Some u \<longrightarrow> j = i)"
  then show "tables_agree (tg_step e pf st ev)"
    using tg_step_agree [of st e pf ev] by blast
next
  show "(userThreads (snd (verify_cached_thread de dpf ds uid)) = userThreads ds
          \<and> threadUsers (snd (verify_cached_thread de dpf ds uid)) = threadUsers ds)
       \<or> (\<exists>t. map_of (userThreads ds) uid = Some t
             \<and> userThreads (snd (verify_cached_thread de dpf ds uid)) = AList.delete uid (userThreads ds)
             \<and> threadUsers (snd (verify_cached_thread de dpf ds uid)) = AList.delete t (threadUsers ds))"
    using verify_cached_thread_tables [of de dpf ds uid] by blast
next
  show "(userThreads (snd (create_user_thread de dpf ds uid un)) = userThreads ds
          \<and> threadUsers (snd (create_user_thread de dpf ds uid un)) = threadUsers ds)
       \<or> (\<exists>t. userThreads (snd (create_user_thread de dpf ds uid un)) = AList.update uid t (userThreads ds)
             \<and> threadUsers (snd (create_user_thread de dpf ds uid un)) = AList.update t uid (threadUsers ds))"
    by (rule create_user_thread_tables)
next
  assume "threads_agree ds
        \<and> (\<forall>t j. map_of (userThreads (snd (getOrCreateUserThread de dpf ds uid un))) uid = Some t
              \<and> map_of (userThreads ds) uid \<noteq> Some t \<and> map_of (userThreads ds) j = Some t \<longrightarrow> j = uid)"
  then show "threads_agree (snd (getOrCreateUserThread de dpf ds uid un))"
    using getOrCreateUserThread_agree [of ds de dpf uid un] by blast
qed

theorem tables_written_together_witness:
  "tables_agree initial_state
   \<and> tables_agree (tg_step example_env accepting initial_state (OnMessage link_msg_1))
   \<and> userTopics (tg_step example_env accepting initial_state (OnMessage link_msg_1)) = [(''1'', 5)]
   \<and> topicUsers (tg_step example_env accepting initial_state (OnMessage link_msg_1)) = [(5, ''1'')]
   \<and> threads_agree dc_mapped_state
   \<and> threads_agree
       (snd (getOrCreateUserThread dc_example_env dc_thread_gone dc_mapped_state ''77'' ''zed''))"
proof -
  note r = tables_written_together [of example_env accepting initial_state "OnMessage link_msg_1"
      dc_example_env dc_thread_gone dc_mapped_state "''77''" "''zed''"]
  have a: "tables_agree initial_state"
    by (simp add: tables_agree_def agree_def initial_state_def)
  have b: "\<forall>i u j. map_of (userTopics (tg_step example_env accepting initial_state (OnMessage link_msg_1))) i = Some u
              \<and> map_of (userTopics initial_state) i \<noteq> Some u
              \<and> map_of (userTopics initial_state) j = Some u \<longrightarrow> j = i"
    by (simp add: initial_state_def)
  have c: "threads_agree dc_mapped_state"
    by (simp add: threads_agree_def agree_def dc_mapped_state_def)
  have d: "\<forall>t j. map_of (userThreads (snd (getOrCreateUserThread dc_example_env dc_thread_gone
                 dc_mapped_state ''77'' ''zed''))) ''77'' = Some t
              \<and> map_of (userThreads dc_mapped_state) ''77'' \<noteq> Some t
              \<and> map_of (userThreads dc_mapped_state) j = Some t \<longrightarrow> j = ''77''"
    by (simp add: dc_mapped_state_def split: if_splits)
  from r a b have 1: "tables_agree (tg_step example_env accepting initial_state (OnMessage link_msg_1))"
    by blast
  from r c d have 2: "threads_agree
       (snd (getOrCreateUserThread dc_example_env dc_thread_gone dc_mapped_state ''77'' ''zed''))"
    by blast
  have 3: "userTopics (tg_step example_env accepting initial_state (OnMessage link_msg_1)) = [(''1'', 5)]"
    "topicUsers (tg_step example_env accepting initial_state (OnMessage link_msg_1)) = [(5, ''1'')]"
    by (simp_all add: on_message_link_1 initial_state_def)
  show ?thesis
    using a 1 3 c 2 by blast
qed

section \<open>C10: the legacy reply and the pending reply\<close>







section \<open>C2: creation is attempted again for every message\<close>




end
